theory Spec2Isabelle
  imports Complex_Main "HOL-Library.Log_Nat"
begin

section \<open>Strings, paths and numbers as Python renders them\<close>

text \<open>
  Python strings are modelled as \<^typ>\<open>string\<close>, the UTF-8 bytes of the text. The program
  only compares, concatenates and tests suffixes of strings; a multi-byte character never
  contains an ASCII byte, so suffix tests against ASCII literals agree with Python's
  tests on code points.
\<close>

definition endswith :: "string \<Rightarrow> string \<Rightarrow> bool" where
  \<comment> \<open>\<^verbatim>\<open>s.endswith(suf)\<close>\<close>
  "endswith s suf = (length suf \<le> length s \<and> drop (length s - length suf) s = suf)"

definition endswith_ppt :: "string \<Rightarrow> bool" where
  \<comment> \<open>\<^verbatim>\<open>s.endswith(('.ppt', '.pptx'))\<close>\<close>
  "endswith_ppt s = (endswith s ''.ppt'' \<or> endswith s ''.pptx'')"

definition lower_char :: "char \<Rightarrow> char" where
  "lower_char c = (let n = (of_char c :: nat) in if 65 \<le> n \<and> n \<le> 90 then char_of (n + 32) else c)"

definition lower :: "string \<Rightarrow> string" where
  \<comment> \<open>\<^verbatim>\<open>s.lower()\<close>: on the bytes of a UTF-8 string only A..Z change; the characters
      outside ASCII that Python lowers never turn into one of \<^verbatim>\<open>.ptx\<close>\<close>
  "lower s = map lower_char s"

definition digit_char :: "nat \<Rightarrow> char" where
  "digit_char d = char_of (48 + d)"

fun str_nat :: "nat \<Rightarrow> string" where
  "str_nat n = (if n < 10 then [digit_char n] else str_nat (n div 10) @ [digit_char (n mod 10)])"

declare str_nat.simps [simp del]

definition str_int :: "int \<Rightarrow> string" where
  \<comment> \<open>\<^verbatim>\<open>str(i)\<close> and \<^verbatim>\<open>f"{i}"\<close> for an integer\<close>
  "str_int i = (if i < 0 then ''-'' @ str_nat (nat (- i)) else str_nat (nat i))"

definition fmt_03d :: "nat \<Rightarrow> string" where
  \<comment> \<open>\<^verbatim>\<open>f"{i:03d}"\<close> for \<^verbatim>\<open>i >= 0\<close>: decimal digits, padded with zeros to width 3\<close>
  "fmt_03d i = replicate (3 - length (str_nat i)) (CHR ''0'') @ str_nat i"

definition os_path_join :: "string \<Rightarrow> string \<Rightarrow> string" where
  \<comment> \<open>\<^verbatim>\<open>os.path.join(a, b)\<close> of posixpath\<close>
  "os_path_join a b =
     (if b \<noteq> [] \<and> hd b = CHR ''/'' then b
      else if a = [] \<or> last a = CHR ''/'' then a @ b
      else a @ ''/'' @ b)"

definition os_path_basename :: "string \<Rightarrow> string" where
  \<comment> \<open>\<^verbatim>\<open>os.path.basename(p)\<close> of posixpath: what follows the last slash\<close>
  "os_path_basename p = rev (takeWhile (\<lambda>c. c \<noteq> CHR ''/'') (rev p))"

subsection \<open>Message texts\<close>

text \<open>
  The literals of the two source files, as UTF-8 bytes. Each definition names the line
  it is taken from.
\<close>

definition MSG_WAITING :: string where
  \<comment> \<open>api_server.py line 204: waiting to be processed\<close>
  "MSG_WAITING =
     [CHR 0xE7, CHR 0xAD, CHR 0x89, CHR 0xE5, CHR 0xBE, CHR 0x85, CHR 0xE5, CHR 0xA4,
      CHR 0x84, CHR 0xE7, CHR 0x90, CHR 0x86] @
     ''...''"

definition MSG_ONLY_PPT :: string where
  \<comment> \<open>api_server.py line 190, ppt_exporter.py line 111: only .ppt or .pptx is supported\<close>
  "MSG_ONLY_PPT =
     [CHR 0xE4, CHR 0xBB, CHR 0x85, CHR 0xE6, CHR 0x94, CHR 0xAF, CHR 0xE6, CHR 0x8C,
      CHR 0x81] @
     '' .ppt '' @ [CHR 0xE6, CHR 0x88, CHR 0x96] @ '' .pptx '' @
     [CHR 0xE6, CHR 0xA0, CHR 0xBC, CHR 0xE5, CHR 0xBC, CHR 0x8F]"

definition MSG_ONLY_PPT_FILES :: string where
  \<comment> \<open>api_server.py line 445: only .ppt or .pptx files are supported\<close>
  "MSG_ONLY_PPT_FILES =
     [CHR 0xE4, CHR 0xBB, CHR 0x85, CHR 0xE6, CHR 0x94, CHR 0xAF, CHR 0xE6, CHR 0x8C,
      CHR 0x81] @
     '' .ppt '' @ [CHR 0xE6, CHR 0x88, CHR 0x96] @ '' .pptx '' @
     [CHR 0xE6, CHR 0xA0, CHR 0xBC, CHR 0xE5, CHR 0xBC, CHR 0x8F, CHR 0xE6, CHR 0x96,
      CHR 0x87, CHR 0xE4, CHR 0xBB, CHR 0xB6]"

definition MSG_TASK_CREATED :: string where
  \<comment> \<open>api_server.py line 232: task created, processing\<close>
  "MSG_TASK_CREATED =
     [CHR 0xE4, CHR 0xBB, CHR 0xBB, CHR 0xE5, CHR 0x8A, CHR 0xA1, CHR 0xE5, CHR 0xB7,
      CHR 0xB2, CHR 0xE5, CHR 0x88, CHR 0x9B, CHR 0xE5, CHR 0xBB, CHR 0xBA, CHR 0xEF,
      CHR 0xBC, CHR 0x8C, CHR 0xE6, CHR 0xAD, CHR 0xA3, CHR 0xE5, CHR 0x9C, CHR 0xA8,
      CHR 0xE5, CHR 0xA4, CHR 0x84, CHR 0xE7, CHR 0x90, CHR 0x86, CHR 0xE4, CHR 0xB8, CHR 0xAD]"

definition MSG_READING :: string where
  \<comment> \<open>api_server.py line 249: reading the document\<close>
  "MSG_READING =
     [CHR 0xE8, CHR 0xAF, CHR 0xBB, CHR 0xE5, CHR 0x8F, CHR 0x96] @ '' PPT '' @
     [CHR 0xE4, CHR 0xBF, CHR 0xA1, CHR 0xE6, CHR 0x81, CHR 0xAF] @ ''...''"

definition MSG_DETECTED_1 :: string where
  \<comment> \<open>api_server.py line 256: detected N slides, preparing (before N)\<close>
  "MSG_DETECTED_1 =
     [CHR 0xE6, CHR 0xA3, CHR 0x80, CHR 0xE6, CHR 0xB5, CHR 0x8B, CHR 0xE5, CHR 0x88,
      CHR 0xB0] @
     '' ''"

definition MSG_DETECTED_2 :: string where
  \<comment> \<open>api_server.py line 256 (after N)\<close>
  "MSG_DETECTED_2 =
     '' '' @
     [CHR 0xE5, CHR 0xBC, CHR 0xA0, CHR 0xE5, CHR 0xB9, CHR 0xBB, CHR 0xE7, CHR 0x81,
      CHR 0xAF, CHR 0xE7, CHR 0x89, CHR 0x87, CHR 0xEF, CHR 0xBC, CHR 0x8C, CHR 0xE5,
      CHR 0x87, CHR 0x86, CHR 0xE5, CHR 0xA4, CHR 0x87, CHR 0xE8, CHR 0xBD, CHR 0xAC,
      CHR 0xE6, CHR 0x8D, CHR 0xA2] @
     ''...''"

definition MSG_PREPARING :: string where
  \<comment> \<open>api_server.py line 259: preparing the conversion\<close>
  "MSG_PREPARING =
     [CHR 0xE5, CHR 0x87, CHR 0x86, CHR 0xE5, CHR 0xA4, CHR 0x87, CHR 0xE8, CHR 0xBD,
      CHR 0xAC, CHR 0xE6, CHR 0x8D, CHR 0xA2] @
     ''...''"

definition MSG_TO_PDF :: string where
  \<comment> \<open>api_server.py line 270: converting to PDF\<close>
  "MSG_TO_PDF =
     [CHR 0xE8, CHR 0xBD, CHR 0xAC, CHR 0xE6, CHR 0x8D, CHR 0xA2, CHR 0xE4, CHR 0xB8,
      CHR 0xBA] @
     '' PDF...''"

definition MSG_LIBREOFFICE :: string where
  \<comment> \<open>api_server.py line 281: converting with LibreOffice\<close>
  "MSG_LIBREOFFICE =
     [CHR 0xE6, CHR 0xAD, CHR 0xA3, CHR 0xE5, CHR 0x9C, CHR 0xA8, CHR 0xE4, CHR 0xBD,
      CHR 0xBF, CHR 0xE7, CHR 0x94, CHR 0xA8] @
     '' LibreOffice '' @ [CHR 0xE8, CHR 0xBD, CHR 0xAC, CHR 0xE6, CHR 0x8D, CHR 0xA2] @
     '' PDF...''"

definition MSG_PDF_TO_IMAGES_1 :: string where
  \<comment> \<open>api_server.py line 288: PDF to images (0/N) (before N)\<close>
  "MSG_PDF_TO_IMAGES_1 =
     ''PDF '' @
     [CHR 0xE8, CHR 0xBD, CHR 0xAC, CHR 0xE6, CHR 0x8D, CHR 0xA2, CHR 0xE4, CHR 0xB8,
      CHR 0xBA, CHR 0xE5, CHR 0x9B, CHR 0xBE, CHR 0xE7, CHR 0x89, CHR 0x87] @
     '' (0/''"

definition MSG_PDF_TO_IMAGES_2 :: string where
  \<comment> \<open>api_server.py line 288 (after N)\<close>
  "MSG_PDF_TO_IMAGES_2 =
     '')...''"

definition MSG_PDF_TO_IMAGES :: string where
  \<comment> \<open>api_server.py line 290: PDF to images\<close>
  "MSG_PDF_TO_IMAGES =
     ''PDF '' @
     [CHR 0xE8, CHR 0xBD, CHR 0xAC, CHR 0xE6, CHR 0x8D, CHR 0xA2, CHR 0xE4, CHR 0xB8,
      CHR 0xBA, CHR 0xE5, CHR 0x9B, CHR 0xBE, CHR 0xE7, CHR 0x89, CHR 0x87] @
     ''...''"

definition MSG_URLS_1 :: string where
  \<comment> \<open>api_server.py line 325: generating image URLs (N) (before N)\<close>
  "MSG_URLS_1 =
     [CHR 0xE6, CHR 0xAD, CHR 0xA3, CHR 0xE5, CHR 0x9C, CHR 0xA8, CHR 0xE7, CHR 0x94,
      CHR 0x9F, CHR 0xE6, CHR 0x88, CHR 0x90, CHR 0xE5, CHR 0x9B, CHR 0xBE, CHR 0xE7,
      CHR 0x89, CHR 0x87] @
     '' URL (''"

definition MSG_URLS_2 :: string where
  \<comment> \<open>api_server.py line 325 (after N)\<close>
  "MSG_URLS_2 =
     '' '' @ [CHR 0xE5, CHR 0xBC, CHR 0xA0] @ '')...''"

definition MSG_DONE_1 :: string where
  \<comment> \<open>api_server.py line 344: conversion finished, N images (before N)\<close>
  "MSG_DONE_1 =
     [CHR 0xE8, CHR 0xBD, CHR 0xAC, CHR 0xE6, CHR 0x8D, CHR 0xA2, CHR 0xE5, CHR 0xAE,
      CHR 0x8C, CHR 0xE6, CHR 0x88, CHR 0x90, CHR 0xEF, CHR 0xBC, CHR 0x81, CHR 0xE5,
      CHR 0x85, CHR 0xB1] @
     '' ''"

definition MSG_DONE_2 :: string where
  \<comment> \<open>api_server.py line 344 (after N)\<close>
  "MSG_DONE_2 =
     '' '' @
     [CHR 0xE5, CHR 0xBC, CHR 0xA0, CHR 0xE5, CHR 0x9B, CHR 0xBE, CHR 0xE7, CHR 0x89, CHR 0x87]"

definition MSG_FAILED :: string where
  \<comment> \<open>api_server.py line 351: conversion failed\<close>
  "MSG_FAILED =
     [CHR 0xE8, CHR 0xBD, CHR 0xAC, CHR 0xE6, CHR 0x8D, CHR 0xA2, CHR 0xE5, CHR 0xA4,
      CHR 0xB1, CHR 0xE8, CHR 0xB4, CHR 0xA5]"

definition MSG_SAVED :: string where
  \<comment> \<open>api_server.py line 143: saved (before the file name)\<close>
  "MSG_SAVED =
     [CHR 0xE2, CHR 0x9C, CHR 0x93] @ '' '' @
     [CHR 0xE5, CHR 0xB7, CHR 0xB2, CHR 0xE4, CHR 0xBF, CHR 0x9D, CHR 0xE5, CHR 0xAD,
      CHR 0x98] @
     '': ''"

definition MSG_NO_TASK :: string where
  \<comment> \<open>api_server.py lines 379 and 413: no such task\<close>
  "MSG_NO_TASK =
     [CHR 0xE4, CHR 0xBB, CHR 0xBB, CHR 0xE5, CHR 0x8A, CHR 0xA1, CHR 0xE4, CHR 0xB8,
      CHR 0x8D, CHR 0xE5, CHR 0xAD, CHR 0x98, CHR 0xE5, CHR 0x9C, CHR 0xA8]"

definition MSG_DELETED_1 :: string where
  \<comment> \<open>api_server.py line 427: task ID deleted (before the identifier)\<close>
  "MSG_DELETED_1 =
     [CHR 0xE4, CHR 0xBB, CHR 0xBB, CHR 0xE5, CHR 0x8A, CHR 0xA1] @ '' ''"

definition MSG_DELETED_2 :: string where
  \<comment> \<open>api_server.py line 427 (after the identifier)\<close>
  "MSG_DELETED_2 =
     '' '' @
     [CHR 0xE5, CHR 0xB7, CHR 0xB2, CHR 0xE5, CHR 0x88, CHR 0xA0, CHR 0xE9, CHR 0x99, CHR 0xA4]"

definition MSG_SYNC_FAILED :: string where
  \<comment> \<open>api_server.py line 493: conversion failed (before the description)\<close>
  "MSG_SYNC_FAILED =
     [CHR 0xE8, CHR 0xBD, CHR 0xAC, CHR 0xE6, CHR 0x8D, CHR 0xA2, CHR 0xE5, CHR 0xA4,
      CHR 0xB1, CHR 0xE8, CHR 0xB4, CHR 0xA5] @
     '': ''"

definition MSG_SYNC_OK_1 :: string where
  \<comment> \<open>api_server.py line 487: converted N images (before N)\<close>
  "MSG_SYNC_OK_1 =
     [CHR 0xE6, CHR 0x88, CHR 0x90, CHR 0xE5, CHR 0x8A, CHR 0x9F, CHR 0xE8, CHR 0xBD,
      CHR 0xAC, CHR 0xE6, CHR 0x8D, CHR 0xA2] @
     '' ''"

definition MSG_NO_FILE :: string where
  \<comment> \<open>ppt_exporter.py line 108: file does not exist (before the path)\<close>
  "MSG_NO_FILE =
     [CHR 0xE6, CHR 0x96, CHR 0x87, CHR 0xE4, CHR 0xBB, CHR 0xB6, CHR 0xE4, CHR 0xB8,
      CHR 0x8D, CHR 0xE5, CHR 0xAD, CHR 0x98, CHR 0xE5, CHR 0x9C, CHR 0xA8] @
     '': ''"

definition MSG_NO_TOOL :: string where
  \<comment> \<open>ppt_exporter.py line 125: no conversion tool found\<close>
  "MSG_NO_TOOL =
     [CHR 0xE6, CHR 0x9C, CHR 0xAA, CHR 0xE6, CHR 0x89, CHR 0xBE, CHR 0xE5, CHR 0x88,
      CHR 0xB0, CHR 0xE5, CHR 0x8F, CHR 0xAF, CHR 0xE7, CHR 0x94, CHR 0xA8, CHR 0xE7,
      CHR 0x9A, CHR 0x84, CHR 0xE8, CHR 0xBD, CHR 0xAC, CHR 0xE6, CHR 0x8D, CHR 0xA2,
      CHR 0xE5, CHR 0xB7, CHR 0xA5, CHR 0xE5, CHR 0x85, CHR 0xB7]"

definition MSG_BAD_METHOD :: string where
  \<comment> \<open>ppt_exporter.py line 137: unsupported method (before the name)\<close>
  "MSG_BAD_METHOD =
     [CHR 0xE4, CHR 0xB8, CHR 0x8D, CHR 0xE6, CHR 0x94, CHR 0xAF, CHR 0xE6, CHR 0x8C,
      CHR 0x81, CHR 0xE7, CHR 0x9A, CHR 0x84, CHR 0xE6, CHR 0x96, CHR 0xB9, CHR 0xE6,
      CHR 0xB3, CHR 0x95] @
     '': ''"

definition MSG_TIMEOUT :: string where
  \<comment> \<open>ppt_exporter.py line 197: LibreOffice timed out after 120 seconds\<close>
  "MSG_TIMEOUT =
     ''LibreOffice '' @
     [CHR 0xE8, CHR 0xBD, CHR 0xAC, CHR 0xE6, CHR 0x8D, CHR 0xA2, CHR 0xE8, CHR 0xB6,
      CHR 0x85, CHR 0xE6, CHR 0x97, CHR 0xB6, CHR 0xEF, CHR 0xBC, CHR 0x88] @
     ''120'' @ [CHR 0xE7, CHR 0xA7, CHR 0x92, CHR 0xEF, CHR 0xBC, CHR 0x89]"

definition MSG_SOFFICE_FAILED :: string where
  \<comment> \<open>ppt_exporter.py line 200: LibreOffice failed (before its stderr)\<close>
  "MSG_SOFFICE_FAILED =
     ''LibreOffice '' @
     [CHR 0xE8, CHR 0xBD, CHR 0xAC, CHR 0xE6, CHR 0x8D, CHR 0xA2, CHR 0xE5, CHR 0xA4,
      CHR 0xB1, CHR 0xE8, CHR 0xB4, CHR 0xA5] @
     '': ''"

definition MSG_PDF_FAILED :: string where
  \<comment> \<open>ppt_exporter.py line 205: no PDF was produced\<close>
  "MSG_PDF_FAILED =
     ''PDF '' @
     [CHR 0xE8, CHR 0xBD, CHR 0xAC, CHR 0xE6, CHR 0x8D, CHR 0xA2, CHR 0xE5, CHR 0xA4,
      CHR 0xB1, CHR 0xE8, CHR 0xB4, CHR 0xA5]"

definition MSG_NEED_PDF2IMAGE :: string where
  \<comment> \<open>ppt_exporter.py line 212: pdf2image must be installed\<close>
  "MSG_NEED_PDF2IMAGE =
     [CHR 0xE9, CHR 0x9C, CHR 0x80, CHR 0xE8, CHR 0xA6, CHR 0x81, CHR 0xE5, CHR 0xAE,
      CHR 0x89, CHR 0xE8, CHR 0xA3, CHR 0x85] @
     '' pdf2image: pip install pdf2image Pillow''"

definition MSG_NEED_LIBREOFFICE :: string where
  \<comment> \<open>ppt_exporter.py line 263: this method needs LibreOffice\<close>
  "MSG_NEED_LIBREOFFICE =
     [CHR 0xE6, CHR 0xAD, CHR 0xA4, CHR 0xE6, CHR 0x96, CHR 0xB9, CHR 0xE6, CHR 0xB3,
      CHR 0x95, CHR 0xE9, CHR 0x9C, CHR 0x80, CHR 0xE8, CHR 0xA6, CHR 0x81] @
     '' LibreOffice '' @
     [CHR 0xE6, CHR 0x9D, CHR 0xA5, CHR 0xE8, CHR 0xBD, CHR 0xAC, CHR 0xE6, CHR 0x8D,
      CHR 0xA2] @
     '' PPT '' @ [CHR 0xE4, CHR 0xB8, CHR 0xBA] @ '' PDF''"

definition MSG_NEED_ASPOSE :: string where
  \<comment> \<open>ppt_exporter.py line 282: aspose.slides must be installed\<close>
  "MSG_NEED_ASPOSE =
     [CHR 0xE9, CHR 0x9C, CHR 0x80, CHR 0xE8, CHR 0xA6, CHR 0x81, CHR 0xE5, CHR 0xAE,
      CHR 0x89, CHR 0xE8, CHR 0xA3, CHR 0x85] @
     '' aspose.slides: pip install aspose.slides''"

section \<open>Exceptions and float arithmetic\<close>

datatype exn =
    FileNotFoundError string
  | ValueError string
  | RuntimeError string
  | ZeroDivisionError string
  | OverflowError string
  | LibraryError string
    \<comment> \<open>any exception raised inside a library call, with its \<^verbatim>\<open>str(e)\<close>\<close>

fun str_exn :: "exn \<Rightarrow> string" where
  \<comment> \<open>\<^verbatim>\<open>str(e)\<close>\<close>
  "str_exn (FileNotFoundError m) = m"
| "str_exn (ValueError m) = m"
| "str_exn (RuntimeError m) = m"
| "str_exn (ZeroDivisionError m) = m"
| "str_exn (OverflowError m) = m"
| "str_exn (LibraryError m) = m"

text \<open>
  Python's \<^verbatim>\<open>float\<close> is the IEEE 754 binary64 format. A finite float is modelled by the
  rational it denotes; \<open>fl\<close> rounds a rational to the nearest float, ties to the even
  significand, with 53 significant bits and gradual underflow below \<open>2 powi (- 1022)\<close>.
  \<open>binade x\<close> is the exponent \<open>e\<close> with \<open>2 powi e \<le> x < 2 powi (e + 1)\<close>.
\<close>

definition round_half_even :: "rat \<Rightarrow> int" where
  "round_half_even x =
     (let f = \<lfloor>x\<rfloor>; r = x - of_int f
      in if r < 1 / 2 then f else if 1 / 2 < r then f + 1 else if even f then f else f + 1)"

definition binade :: "rat \<Rightarrow> int" where
  "binade x = (let (n, d) = quotient_of x; e = bitlen n - bitlen d
               in if 2 powi e \<le> x then e else e - 1)"

definition fl_pos :: "rat \<Rightarrow> rat" where
  "fl_pos x = (let u = 2 powi (max (binade x) (- 1022) - 52)
               in of_int (round_half_even (x / u)) * u)"

definition fl :: "rat \<Rightarrow> rat" where
  "fl x = (if x = 0 then 0 else if 0 < x then fl_pos x else - fl_pos (- x))"

definition py_truediv :: "int \<Rightarrow> int \<Rightarrow> exn + rat" where
  \<comment> \<open>\<^verbatim>\<open>a / b\<close> on two integers: the correctly rounded quotient\<close>
  "py_truediv a b =
     (if b = 0 then Inl (ZeroDivisionError ''division by zero'')
      else let q = fl (of_int a / of_int b)
           in if 2 powi 1024 \<le> \<bar>q\<bar>
              then Inl (OverflowError ''integer division result too large for a float'')
              else Inr q)"

definition float_mul :: "rat \<Rightarrow> rat \<Rightarrow> rat option" where
  \<comment> \<open>\<^verbatim>\<open>x * y\<close> on two floats; \<open>None\<close> is an infinity\<close>
  "float_mul x y = (let p = fl (x * y) in if 2 powi 1024 \<le> \<bar>p\<bar> then None else Some p)"

definition py_int :: "rat option \<Rightarrow> exn + int" where
  \<comment> \<open>\<^verbatim>\<open>int(x)\<close> on a float: truncation towards zero; an infinity raises\<close>
  "py_int x = (case x of None \<Rightarrow> Inl (OverflowError ''cannot convert float infinity to integer'')
               | Some v \<Rightarrow> Inr (if 0 \<le> v then \<lfloor>v\<rfloor> else \<lceil>v\<rceil>))"


section \<open>The task record and the server's state\<close>

datatype TaskStatus = PENDING | PROCESSING | COMPLETED | FAILED

text \<open>An entry of \<open>images\<close>: the dictionary with the keys \<^verbatim>\<open>slide_number\<close>, \<^verbatim>\<open>url\<close>, \<^verbatim>\<open>filename\<close>.\<close>

record image_entry =
  slide_number :: int
  url :: string
  image_filename :: string

record TaskInfo =
  task_id :: string
  filename :: string
  status :: TaskStatus
  progress :: int
  total_slides :: int
  current_slide :: int
  created_at :: string
  updated_at :: string
  status_message :: string
  images :: "image_entry list"
  error :: "string option"

text \<open>
  What a run depends on from outside the program: the clock, the random identifier, the
  name of the temporary file, the configuration, and the outcome of every call into a
  library or an external tool. The passage of time is not modelled: \<open>now\<close> stands
  for every reading of \<^verbatim>\<open>datetime.now().isoformat()\<close>, and \<^verbatim>\<open>time.sleep\<close> is dropped.
\<close>

datatype subprocess_outcome =
    TimeoutExpired
  | CalledProcessError string  \<comment> \<open>non-zero exit, with the decoded stderr\<close>
  | CompletedProcess
  | RunRaised string           \<comment> \<open>any other exception of \<^verbatim>\<open>subprocess.run\<close>\<close>

record env =
  now :: string
  uuid4 :: string
  mkstemp :: string
    \<comment> \<open>the random part of a temporary file's name, directory included\<close>
  API_BASE_URL :: string
  OUTPUT_BASE_DIR :: string
  HAS_PPTX :: bool
  pptx_slides :: "bool list option"
    \<comment> \<open>\<^verbatim>\<open>Presentation(path).slides\<close>, each slide with whether the hidden marker was
        found; \<open>None\<close> when the document cannot be read\<close>
  which :: "string \<Rightarrow> bool"
  import_pdf2image :: bool
  import_aspose :: bool
  subprocess_run :: "string \<Rightarrow> subprocess_outcome"
  glob_pdf :: "string list"
  convert_from_path :: "string + nat"
    \<comment> \<open>the exception's text, or the number of page images returned\<close>
  image_save :: "nat \<Rightarrow> string option"
    \<comment> \<open>whether saving the i-th image raises, and with what text\<close>
  aspose_presentation :: "string + nat"
  rmtree_succeeds :: bool

text \<open>
  The file system is the set of paths that exist. The server's state extends it with the
  task map, the queue of scheduled background tasks and \<open>history\<close>, a log that receives
  the record after each assignment to one of its attributes: the values a Status query
  running between two statements of the runner can see.
\<close>

record fs =
  paths :: "string set"

record background_task =
  bg_task_id :: string
  bg_temp_file_path :: string
  bg_dpi :: int
  bg_format :: string

record world = fs +
  tasks_cache :: "string \<rightharpoonup> TaskInfo"
  background_tasks :: "background_task list"
  history :: "(string \<times> TaskInfo) list"

type_synonym 's callback = "int \<Rightarrow> int \<Rightarrow> string \<Rightarrow> 's \<Rightarrow> exn option \<times> 's"

definition makedirs :: "string \<Rightarrow> 'a fs_scheme \<Rightarrow> 'a fs_scheme" where
  \<comment> \<open>\<^verbatim>\<open>os.makedirs(d, exist_ok=True)\<close>\<close>
  "makedirs d s = s\<lparr>paths := insert d (paths s)\<rparr>"

definition under :: "string \<Rightarrow> string \<Rightarrow> bool" where
  \<comment> \<open>the path \<open>p\<close> is the directory \<open>d\<close> or lies below it\<close>
  "under d p = (p = d \<or> take (length d + 1) p = d @ ''/'')"

definition rmtree :: "env \<Rightarrow> string \<Rightarrow> 'a fs_scheme \<Rightarrow> 'a fs_scheme" where
  \<comment> \<open>\<^verbatim>\<open>shutil.rmtree(d, ignore_errors=True)\<close>: a deletion that fails is not reported\<close>
  "rmtree e d s = (if rmtree_succeeds e then s\<lparr>paths := {p \<in> paths s. \<not> under d p}\<rparr> else s)"

definition unlink :: "string \<Rightarrow> 'a fs_scheme \<Rightarrow> exn + 'a fs_scheme" where
  \<comment> \<open>\<^verbatim>\<open>os.unlink(p)\<close>\<close>
  "unlink p s = (if p \<in> paths s then Inr (s\<lparr>paths := paths s - {p}\<rparr>)
                 else Inl (FileNotFoundError p))"

definition assign :: "string \<Rightarrow> (TaskInfo \<Rightarrow> TaskInfo) \<Rightarrow> world \<Rightarrow> world" where
  \<comment> \<open>one assignment \<^verbatim>\<open>task.attr = v\<close> to the record stored under the identifier\<close>
  "assign tid f w =
     (case tasks_cache w tid of
        None \<Rightarrow> w
      | Some t \<Rightarrow> w\<lparr>tasks_cache := (tasks_cache w)(tid \<mapsto> f t),
                     history := history w @ [(tid, f t)]\<rparr>)"

definition polled :: "string \<Rightarrow> world \<Rightarrow> TaskInfo list" where
  \<comment> \<open>the logged values of one task's record, oldest first\<close>
  "polled tid w = map snd (filter (\<lambda>x. fst x = tid) (history w))"

section \<open>ppt_exporter.py\<close>

record ExportConfig =
  dpi :: int
  format :: string
  quality :: int
  width :: "int option"
  height :: "int option"

definition ExportConfig_default :: ExportConfig where
  "ExportConfig_default = \<lparr>dpi = 300, format = ''png'', quality = 95, width = None, height = None\<rparr>"

record PPTExporter =
  config :: ExportConfig
  has_libreoffice :: bool
  has_pdf2image :: bool
  has_aspose :: bool

definition check_libreoffice :: "env \<Rightarrow> bool" where
  "check_libreoffice e = (if which e ''soffice'' then True
                          else if which e ''libreoffice'' then True else False)"

definition PPTExporter_init :: "env \<Rightarrow> ExportConfig option \<Rightarrow> PPTExporter" where
  \<comment> \<open>\<^verbatim>\<open>__init__\<close> with \<^verbatim>\<open>_check_dependencies\<close>\<close>
  "PPTExporter_init e cfg =
     \<lparr>config = (case cfg of Some c \<Rightarrow> c | None \<Rightarrow> ExportConfig_default),
      has_libreoffice = check_libreoffice e,
      has_pdf2image = import_pdf2image e,
      has_aspose = import_aspose e\<rparr>"

definition slide_filename :: "PPTExporter \<Rightarrow> string \<Rightarrow> nat \<Rightarrow> string" where
  \<comment> \<open>\<^verbatim>\<open>f"{prefix}_{i:03d}.{self.config.format}"\<close>\<close>
  "slide_filename self prefix i = prefix @ ''_'' @ fmt_03d i @ ''.'' @ format (config self)"

text \<open>
  The loop of \<^verbatim>\<open>_export_with_libreoffice\<close> over \<^verbatim>\<open>enumerate(images, 1)\<close>. The contents of
  an image are not modelled, so resizing leaves no trace; saving the i-th image either
  raises or creates the file. The state reached so far is kept when an exception leaves
  the loop.
\<close>

fun save_images ::
  "env \<Rightarrow> PPTExporter \<Rightarrow> string \<Rightarrow> string \<Rightarrow> 'a fs_scheme callback option \<Rightarrow> nat \<Rightarrow>
   nat list \<Rightarrow> string list \<Rightarrow> 'a fs_scheme \<Rightarrow> (exn + string list) \<times> 'a fs_scheme" where
  "save_images e self output_dir prefix cb total_images [] output_files s =
     (Inr output_files, s)"
| "save_images e self output_dir prefix cb total_images (i # rest) output_files s =
     (let fname = slide_filename self prefix i;
          output_path = os_path_join output_dir fname
      in case image_save e i of
           Some m \<Rightarrow> (Inl (LibraryError m), s)
         | None \<Rightarrow>
             let s1 = s\<lparr>paths := insert output_path (paths s)\<rparr>;
                 output_files' = output_files @ [output_path]
             in (case cb of
                   None \<Rightarrow> save_images e self output_dir prefix cb total_images rest output_files' s1
                 | Some f \<Rightarrow>
                     (case f (int i) (int total_images) fname s1 of
                        (Some ex, s2) \<Rightarrow> (Inl ex, s2)
                      | (None, s2) \<Rightarrow>
                          save_images e self output_dir prefix cb total_images rest
                            output_files' s2)))"

definition export_with_libreoffice ::
  "env \<Rightarrow> PPTExporter \<Rightarrow> string \<Rightarrow> string \<Rightarrow> string \<Rightarrow> 'a fs_scheme callback option \<Rightarrow>
   'a fs_scheme \<Rightarrow> (exn + string list) \<times> 'a fs_scheme" where
  \<comment> \<open>the temporary directory of the PDF exists only during the call and is left out\<close>
  "export_with_libreoffice e self ppt_path output_dir prefix cb s =
     (case subprocess_run e (if which e ''soffice'' then ''soffice'' else ''libreoffice'') of
        TimeoutExpired \<Rightarrow> (Inl (RuntimeError MSG_TIMEOUT), s)
      | CalledProcessError error_msg \<Rightarrow> (Inl (RuntimeError (MSG_SOFFICE_FAILED @ error_msg)), s)
      | RunRaised m \<Rightarrow> (Inl (LibraryError m), s)
      | CompletedProcess \<Rightarrow>
          if glob_pdf e = [] then (Inl (RuntimeError MSG_PDF_FAILED), s)
          else if \<not> has_pdf2image self then (Inl (RuntimeError MSG_NEED_PDF2IMAGE), s)
          else (case convert_from_path e of
                  Inl m \<Rightarrow> (Inl (LibraryError m), s)
                | Inr total_images \<Rightarrow>
                    save_images e self output_dir prefix cb total_images
                      [1..<Suc total_images] [] s))"

definition export_with_pdf2image ::
  "env \<Rightarrow> PPTExporter \<Rightarrow> string \<Rightarrow> string \<Rightarrow> string \<Rightarrow> 'a fs_scheme callback option \<Rightarrow>
   'a fs_scheme \<Rightarrow> (exn + string list) \<times> 'a fs_scheme" where
  "export_with_pdf2image e self ppt_path output_dir prefix cb s =
     (if \<not> has_libreoffice self then (Inl (RuntimeError MSG_NEED_LIBREOFFICE), s)
      else export_with_libreoffice e self ppt_path output_dir prefix cb s)"

text \<open>
  The loop of \<^verbatim>\<open>_export_with_aspose\<close> over \<^verbatim>\<open>enumerate(presentation.slides, 1)\<close>; it
  never calls the progress callback.
\<close>

fun save_slides ::
  "env \<Rightarrow> PPTExporter \<Rightarrow> string \<Rightarrow> string \<Rightarrow> nat list \<Rightarrow> string list \<Rightarrow> 'a fs_scheme \<Rightarrow>
   (exn + string list) \<times> 'a fs_scheme" where
  "save_slides e self output_dir prefix [] output_files s = (Inr output_files, s)"
| "save_slides e self output_dir prefix (i # rest) output_files s =
     (let fname = slide_filename self prefix i;
          output_path = os_path_join output_dir fname
      in case image_save e i of
           Some m \<Rightarrow> (Inl (LibraryError m), s)
         | None \<Rightarrow>
             save_slides e self output_dir prefix rest (output_files @ [output_path])
               (s\<lparr>paths := insert output_path (paths s)\<rparr>))"

definition export_with_aspose ::
  "env \<Rightarrow> PPTExporter \<Rightarrow> string \<Rightarrow> string \<Rightarrow> string \<Rightarrow> 'a fs_scheme callback option \<Rightarrow>
   'a fs_scheme \<Rightarrow> (exn + string list) \<times> 'a fs_scheme" where
  "export_with_aspose e self ppt_path output_dir prefix cb s =
     (if \<not> import_aspose e then (Inl (RuntimeError MSG_NEED_ASPOSE), s)
      else (case aspose_presentation e of
              Inl m \<Rightarrow> (Inl (LibraryError m), s)
            | Inr n \<Rightarrow> save_slides e self output_dir prefix [1..<Suc n] [] s))"

definition select_method :: "PPTExporter \<Rightarrow> string \<Rightarrow> exn + string" where
  \<comment> \<open>lines 117 to 125 of \<^verbatim>\<open>export\<close>\<close>
  "select_method self method =
     (if method = ''auto'' then
        (if has_libreoffice self then Inr ''libreoffice''
         else if has_pdf2image self then Inr ''pdf2image''
         else if has_aspose self then Inr ''aspose''
         else Inl (RuntimeError MSG_NO_TOOL))
      else Inr method)"

definition check_input :: "string \<Rightarrow> 'a fs_scheme \<Rightarrow> exn option" where
  \<comment> \<open>lines 107 to 111 of \<^verbatim>\<open>export\<close>: the exception raised for the input file, if any\<close>
  "check_input ppt_path s =
     (if ppt_path \<notin> paths s then Some (FileNotFoundError (MSG_NO_FILE @ ppt_path))
      else if \<not> endswith_ppt (lower ppt_path) then Some (ValueError MSG_ONLY_PPT)
      else None)"

definition export ::
  "env \<Rightarrow> PPTExporter \<Rightarrow> string \<Rightarrow> string \<Rightarrow> string \<Rightarrow> string \<Rightarrow> 'a fs_scheme callback option \<Rightarrow>
   'a fs_scheme \<Rightarrow> (exn + string list) \<times> 'a fs_scheme" where
  "export e self ppt_path output_dir method prefix cb s =
     (case check_input ppt_path s of
        Some ex \<Rightarrow> (Inl ex, s)
      | None \<Rightarrow>
          let s1 = makedirs output_dir s
          in (case select_method self method of
                Inl ex \<Rightarrow> (Inl ex, s1)
              | Inr m \<Rightarrow>
                  if m = ''libreoffice'' then
                    export_with_libreoffice e self ppt_path output_dir prefix cb s1
                  else if m = ''pdf2image'' then
                    export_with_pdf2image e self ppt_path output_dir prefix cb s1
                  else if m = ''aspose'' then
                    export_with_aspose e self ppt_path output_dir prefix cb s1
                  else (Inl (ValueError (MSG_BAD_METHOD @ m)), s1)))"

section \<open>api_server.py\<close>

definition progress_callback :: "env \<Rightarrow> string \<Rightarrow> world callback" where
  "progress_callback e tid current tot fname w =
     (case tasks_cache w tid of
        None \<Rightarrow> (None, w)
      | Some _ \<Rightarrow>
          let w1 = assign tid (\<lambda>t. t\<lparr>current_slide := current\<rparr>) w;
              w2 = assign tid (\<lambda>t. t\<lparr>total_slides := tot\<rparr>) w1
          in (case py_truediv current tot of
                Inl ex \<Rightarrow> (Some ex, w2)
              | Inr q \<Rightarrow>
                 (case py_int (float_mul q 55) of
                    Inl ex \<Rightarrow> (Some ex, w2)
                  | Inr k \<Rightarrow>
                      let progress' = 30 + k;
                          w3 = assign tid (\<lambda>t. t\<lparr>progress := min progress' 85\<rparr>) w2;
                          w4 = assign tid (\<lambda>t. t\<lparr>status_message :=
                                 MSG_SAVED @ fname @ '' ('' @ str_int current @ ''/''
                                   @ str_int tot @ '')''\<rparr>) w3;
                          w5 = assign tid (\<lambda>t. t\<lparr>updated_at := now e\<rparr>) w4
                      in (None, w5))))"

record UploadFile =
  upload_filename :: string
  contents :: string

datatype HTTPException = HTTPException (status_code: nat) (detail: string)

datatype response =
    Submitted (resp_task_id: string) (resp_message: string)
    \<comment> \<open>\<^verbatim>\<open>{"success": True, "task_id": ..., "message": ...}\<close>\<close>
  | TaskState TaskInfo
    \<comment> \<open>\<^verbatim>\<open>{"success": True, "task": task.to_dict()}\<close>\<close>
  | Deleted string
    \<comment> \<open>\<^verbatim>\<open>{"success": True, "message": ...}\<close>\<close>
  | Converted (resp_folder_id: string) (resp_images: "image_entry list") (resp_text: string)
    \<comment> \<open>\<^verbatim>\<open>{"success": True, "folder_id": ..., "count": len(images), "images": ..., "message": ...}\<close>\<close>

definition NamedTemporaryFile :: "env \<Rightarrow> string \<Rightarrow> string" where
  \<comment> \<open>the name of \<^verbatim>\<open>tempfile.NamedTemporaryFile(delete=False, suffix=...)\<close>\<close>
  "NamedTemporaryFile e suffix = mkstemp e @ suffix"

definition get_ppt_slide_count :: "env \<Rightarrow> string \<Rightarrow> int" where
  "get_ppt_slide_count e ppt_path =
     (if \<not> HAS_PPTX e then 0
      else case pptx_slides e of
             None \<Rightarrow> 0
           | Some slides \<Rightarrow> int (length slides) - int (length (filter (\<lambda>hidden. hidden) slides)))"

definition convert_ppt_async ::
  "env \<Rightarrow> UploadFile \<Rightarrow> int \<Rightarrow> string \<Rightarrow> world \<Rightarrow> (HTTPException + response) \<times> world" where
  "convert_ppt_async e file dpi_arg format_arg w =
     (if \<not> endswith_ppt (upload_filename file) then (Inl (HTTPException 400 MSG_ONLY_PPT), w)
      else
        let tid = uuid4 e;
            task_info = \<lparr>task_id = tid, filename = upload_filename file, status = PENDING,
                         progress = 0, total_slides = 0, current_slide = 0,
                         created_at = now e, updated_at = now e,
                         status_message = MSG_WAITING, images = [], error = None\<rparr>;
            w1 = w\<lparr>tasks_cache := (tasks_cache w)(tid \<mapsto> task_info),
                    history := history w @ [(tid, task_info)]\<rparr>;
            temp_file_path = NamedTemporaryFile e ''.pptx'';
            w2 = w1\<lparr>paths := insert temp_file_path (paths w1)\<rparr>;
            w3 = w2\<lparr>background_tasks := background_tasks w2 @
                    [\<lparr>bg_task_id = tid, bg_temp_file_path = temp_file_path,
                      bg_dpi = dpi_arg, bg_format = format_arg\<rparr>]\<rparr>
        in (Inr (Submitted tid MSG_TASK_CREATED), w3))"

definition assigns :: "string \<Rightarrow> (TaskInfo \<Rightarrow> TaskInfo) list \<Rightarrow> world \<Rightarrow> world" where
  \<comment> \<open>consecutive assignments, in program order\<close>
  "assigns tid fs w = fold (assign tid) fs w"

definition make_image_urls :: "env \<Rightarrow> string \<Rightarrow> string list \<Rightarrow> image_entry list" where
  \<comment> \<open>the list comprehension over \<^verbatim>\<open>enumerate(image_files)\<close>, lines 331 to 338 and 471 to 478\<close>
  "make_image_urls e folder image_files =
     map (\<lambda>(i, img_path).
            \<lparr>slide_number = int i + 1,
             url = API_BASE_URL e @ ''/images/'' @ folder @ ''/'' @ os_path_basename img_path,
             image_filename = os_path_basename img_path\<rparr>)
         (enumerate 0 image_files)"

definition prepare :: "env \<Rightarrow> string \<Rightarrow> string \<Rightarrow> world \<Rightarrow> world" where
  \<comment> \<open>\<^verbatim>\<open>process_ppt_task\<close>, lines 246 to 297\<close>
  "prepare e tid temp_file_path w =
     (let w1 = assigns tid
                 [\<lambda>t. t\<lparr>status := PROCESSING\<rparr>,
                  \<lambda>t. t\<lparr>progress := 5\<rparr>,
                  \<lambda>t. t\<lparr>status_message := MSG_READING\<rparr>,
                  \<lambda>t. t\<lparr>updated_at := now e\<rparr>] w;
          slide_count = get_ppt_slide_count e temp_file_path;
          w2 = (if 0 < slide_count
                then assigns tid
                       [\<lambda>t. t\<lparr>total_slides := slide_count\<rparr>,
                        \<lambda>t. t\<lparr>status_message :=
                               MSG_DETECTED_1 @ str_int slide_count @ MSG_DETECTED_2\<rparr>] w1
                else assign tid (\<lambda>t. t\<lparr>status_message := MSG_PREPARING\<rparr>) w1);
          w3 = assign tid (\<lambda>t. t\<lparr>updated_at := now e\<rparr>) w2;
          output_dir = os_path_join (OUTPUT_BASE_DIR e) tid;
          w4 = makedirs output_dir w3;
          w5 = assigns tid
                 [\<lambda>t. t\<lparr>progress := 10\<rparr>,
                  \<lambda>t. t\<lparr>status_message := MSG_TO_PDF\<rparr>,
                  \<lambda>t. t\<lparr>updated_at := now e\<rparr>,
                  \<lambda>t. t\<lparr>progress := 15\<rparr>,
                  \<lambda>t. t\<lparr>status_message := MSG_LIBREOFFICE\<rparr>,
                  \<lambda>t. t\<lparr>updated_at := now e\<rparr>,
                  \<lambda>t. t\<lparr>progress := 30\<rparr>,
                  \<lambda>t. t\<lparr>status_message :=
                         (if 0 < total_slides t
                          then MSG_PDF_TO_IMAGES_1 @ str_int (total_slides t) @ MSG_PDF_TO_IMAGES_2
                          else MSG_PDF_TO_IMAGES)\<rparr>,
                  \<lambda>t. t\<lparr>updated_at := now e\<rparr>] w4
      in makedirs output_dir w5)"

definition finish :: "env \<Rightarrow> string \<Rightarrow> string list \<Rightarrow> world \<Rightarrow> world" where
  \<comment> \<open>\<^verbatim>\<open>process_ppt_task\<close>, lines 315 to 346\<close>
  "finish e tid image_files w =
     (let actual_count = int (length image_files);
          w1 = (case tasks_cache w tid of
                  None \<Rightarrow> w
                | Some t \<Rightarrow>
                    if actual_count \<noteq> total_slides t
                    then assign tid (\<lambda>t. t\<lparr>total_slides := actual_count\<rparr>) w else w);
          image_urls = make_image_urls e tid image_files
      in assigns tid
           [\<lambda>t. t\<lparr>current_slide := actual_count\<rparr>,
            \<lambda>t. t\<lparr>progress := 90\<rparr>,
            \<lambda>t. t\<lparr>status_message := MSG_URLS_1 @ str_int actual_count @ MSG_URLS_2\<rparr>,
            \<lambda>t. t\<lparr>updated_at := now e\<rparr>,
            \<lambda>t. t\<lparr>status := COMPLETED\<rparr>,
            \<lambda>t. t\<lparr>progress := 100\<rparr>,
            \<lambda>t. t\<lparr>current_slide := actual_count\<rparr>,
            \<lambda>t. t\<lparr>status_message := MSG_DONE_1 @ str_int actual_count @ MSG_DONE_2\<rparr>,
            \<lambda>t. t\<lparr>images := image_urls\<rparr>,
            \<lambda>t. t\<lparr>updated_at := now e\<rparr>] w1)"

definition try_block ::
  "env \<Rightarrow> string \<Rightarrow> string \<Rightarrow> int \<Rightarrow> string \<Rightarrow> world \<Rightarrow> exn option \<times> world" where
  \<comment> \<open>the \<^verbatim>\<open>try\<close> suite of \<^verbatim>\<open>process_ppt_task\<close>: the exception that left it, if any\<close>
  "try_block e tid temp_file_path dpi_arg format_arg w =
     (let w1 = prepare e tid temp_file_path w;
          output_dir = os_path_join (OUTPUT_BASE_DIR e) tid;
          cfg = \<lparr>dpi = dpi_arg, format = format_arg, quality = 95, width = None, height = None\<rparr>;
          exporter = PPTExporter_init e (Some cfg)
      in case export e exporter temp_file_path output_dir ''auto'' ''slide''
                (Some (progress_callback e tid)) w1 of
           (Inl ex, w2) \<Rightarrow> (Some ex, w2)
         | (Inr image_files, w2) \<Rightarrow> (None, finish e tid image_files w2))"

definition except_block :: "env \<Rightarrow> string \<Rightarrow> exn \<Rightarrow> world \<Rightarrow> world" where
  \<comment> \<open>the \<^verbatim>\<open>except Exception as e\<close> suite, lines 348 to 360\<close>
  "except_block e tid ex w =
     (let w1 = assigns tid
                 [\<lambda>t. t\<lparr>status := FAILED\<rparr>,
                  \<lambda>t. t\<lparr>status_message := MSG_FAILED\<rparr>,
                  \<lambda>t. t\<lparr>error := Some (str_exn ex)\<rparr>,
                  \<lambda>t. t\<lparr>updated_at := now e\<rparr>] w;
          folder_path = os_path_join (OUTPUT_BASE_DIR e) tid
      in if folder_path \<in> paths w1 then rmtree e folder_path w1 else w1)"

definition finally_block :: "string \<Rightarrow> world \<Rightarrow> world" where
  \<comment> \<open>the \<^verbatim>\<open>finally\<close> suite: \<^verbatim>\<open>os.unlink\<close> inside \<^verbatim>\<open>try ... except: pass\<close>\<close>
  "finally_block temp_file_path w =
     (case unlink temp_file_path w of Inl _ \<Rightarrow> w | Inr w' \<Rightarrow> w')"

definition process_ppt_task :: "env \<Rightarrow> string \<Rightarrow> string \<Rightarrow> int \<Rightarrow> string \<Rightarrow> world \<Rightarrow> world" where
  "process_ppt_task e tid temp_file_path dpi_arg format_arg w =
     (case tasks_cache w tid of
        None \<Rightarrow> w
      | Some _ \<Rightarrow>
          (case try_block e tid temp_file_path dpi_arg format_arg w of
             (None, w1) \<Rightarrow> finally_block temp_file_path w1
           | (Some ex, w1) \<Rightarrow> finally_block temp_file_path (except_block e tid ex w1)))"

definition get_task_status :: "string \<Rightarrow> world \<Rightarrow> HTTPException + response" where
  "get_task_status tid w =
     (case tasks_cache w tid of
        None \<Rightarrow> Inl (HTTPException 404 MSG_NO_TASK)
      | Some t \<Rightarrow> Inr (TaskState t))"

definition delete_task :: "env \<Rightarrow> string \<Rightarrow> world \<Rightarrow> (HTTPException + response) \<times> world" where
  "delete_task e tid w =
     (case tasks_cache w tid of
        None \<Rightarrow> (Inl (HTTPException 404 MSG_NO_TASK), w)
      | Some _ \<Rightarrow>
          let folder_path = os_path_join (OUTPUT_BASE_DIR e) tid;
              w1 = (if folder_path \<in> paths w then rmtree e folder_path w else w);
              w2 = w1\<lparr>tasks_cache := (tasks_cache w1)(tid := None)\<rparr>
          in (Inr (Deleted (MSG_DELETED_1 @ tid @ MSG_DELETED_2)), w2))"

definition convert_ppt_sync ::
  "env \<Rightarrow> UploadFile \<Rightarrow> int \<Rightarrow> string \<Rightarrow> world \<Rightarrow> (HTTPException + response) \<times> world" where
  "convert_ppt_sync e file dpi_arg format_arg w =
     (if \<not> endswith_ppt (upload_filename file)
      then (Inl (HTTPException 400 MSG_ONLY_PPT_FILES), w)
      else
        let temp_file_path = NamedTemporaryFile e ''.pptx'';
            w1 = w\<lparr>paths := insert temp_file_path (paths w)\<rparr>;
            folder_id = uuid4 e;
            output_dir = os_path_join (OUTPUT_BASE_DIR e) folder_id;
            w2 = makedirs output_dir w1;
            cfg = \<lparr>dpi = dpi_arg, format = format_arg, quality = 95, width = None, height = None\<rparr>;
            exporter = PPTExporter_init e (Some cfg)
        in case export e exporter temp_file_path output_dir ''auto'' ''slide'' None w2 of
             (Inl ex, w3) \<Rightarrow> (Inl (HTTPException 500 (MSG_SYNC_FAILED @ str_exn ex)), w3)
           | (Inr image_files, w3) \<Rightarrow>
               let image_urls = make_image_urls e folder_id image_files
               in (case unlink temp_file_path w3 of
                     Inl ex \<Rightarrow> (Inl (HTTPException 500 (MSG_SYNC_FAILED @ str_exn ex)), w3)
                   | Inr w4 \<Rightarrow>
                       (Inr (Converted folder_id image_urls
                               (MSG_SYNC_OK_1 @ str_int (int (length image_urls)) @ MSG_DONE_2)),
                        w4)))"

subsection \<open>The server as a sequence of events\<close>

text \<open>
  Requests are served one after the other; a scheduled background task runs as an event of
  its own some time after the Submit that queued it.
\<close>

datatype event =
    Submit env UploadFile int string
  | RunNext env
  | Status string
  | Delete env string
  | SyncConvert env UploadFile int string

fun step :: "event \<Rightarrow> world \<Rightarrow> world" where
  "step (Submit e file d f) w = snd (convert_ppt_async e file d f w)"
| "step (RunNext e) w =
     (case background_tasks w of
        [] \<Rightarrow> w
      | b # rest \<Rightarrow>
          process_ppt_task e (bg_task_id b) (bg_temp_file_path b) (bg_dpi b) (bg_format b)
            (w\<lparr>background_tasks := rest\<rparr>))"
| "step (Status tid) w = w"
| "step (Delete e tid) w = snd (delete_task e tid w)"
| "step (SyncConvert e file d f) w = snd (convert_ppt_sync e file d f w)"

definition run :: "event list \<Rightarrow> world \<Rightarrow> world" where
  "run evs w = fold step evs w"

section \<open>Concrete runs\<close>

text \<open>
  A machine with LibreOffice and pdf2image on which a three-page document converts, and
  the state of a server that has served no request yet.
\<close>

definition example_env :: env where
  "example_env =
     \<lparr>now = ''2024-05-01T10:00:00'', uuid4 = ''task-1'', mkstemp = ''/tmp/tmpk3'',
      API_BASE_URL = ''http://localhost:4000'', OUTPUT_BASE_DIR = ''/app/output'',
      HAS_PPTX = True, pptx_slides = Some [False, False, False],
      which = (\<lambda>cmd. cmd = ''soffice''), import_pdf2image = True, import_aspose = False,
      subprocess_run = (\<lambda>cmd. CompletedProcess), glob_pdf = [''/tmp/d/deck.pdf''],
      convert_from_path = Inr 3, image_save = (\<lambda>i. None),
      aspose_presentation = Inl ''No module named aspose'', rmtree_succeeds = True\<rparr>"

definition initial_world :: world where
  "initial_world = \<lparr>paths = {}, tasks_cache = Map.empty, background_tasks = [], history = []\<rparr>"

definition example_upload :: UploadFile where
  "example_upload = \<lparr>upload_filename = ''deck.pptx'', contents = ''PK''\<rparr>"

definition pending_task :: TaskInfo where
  \<comment> \<open>the record that Submit creates for \<open>example_upload\<close>\<close>
  "pending_task =
     \<lparr>task_id = ''task-1'', filename = ''deck.pptx'', status = PENDING, progress = 0,
      total_slides = 0, current_slide = 0, created_at = ''2024-05-01T10:00:00'',
      updated_at = ''2024-05-01T10:00:00'', status_message = MSG_WAITING, images = [],
      error = None\<rparr>"

definition submitted_world :: world where
  \<comment> \<open>the state after Submit of \<open>example_upload\<close> to the fresh server\<close>
  "submitted_world =
     \<lparr>paths = {''/tmp/tmpk3.pptx''},
      tasks_cache = [''task-1'' \<mapsto> pending_task],
      background_tasks = [\<lparr>bg_task_id = ''task-1'', bg_temp_file_path = ''/tmp/tmpk3.pptx'',
                            bg_dpi = 300, bg_format = ''png''\<rparr>],
      history = [(''task-1'', pending_task)]\<rparr>"

definition bare_env :: env where
  \<comment> \<open>the same machine without any conversion backend\<close>
  "bare_env = example_env\<lparr>which := (\<lambda>cmd. False), import_pdf2image := False\<rparr>"

definition notes_upload :: UploadFile where
  "notes_upload = \<lparr>upload_filename = ''notes.txt'', contents = ''hello''\<rparr>"

definition upper_upload :: UploadFile where
  "upper_upload = \<lparr>upload_filename = ''DECK.PPTX'', contents = ''PK''\<rparr>"

definition empty_deck_env :: env where
  \<comment> \<open>the same machine, given a document whose PDF has no page\<close>
  "empty_deck_env = example_env\<lparr>convert_from_path := Inr 0\<rparr>"

definition broken_env :: env where
  \<comment> \<open>the rasterizer raises an exception without text, and the later deletion of the
      output directory fails\<close>
  "broken_env = example_env\<lparr>convert_from_path := Inl [], rmtree_succeeds := False\<rparr>"

section \<open>Reference formulas and invariants\<close>

definition hook_share :: "int \<Rightarrow> int \<Rightarrow> int" where
  \<comment> \<open>the value of \<^verbatim>\<open>int((current / total) * 55)\<close> as the program computes it\<close>
  "hook_share current tot = \<lfloor>fl (fl (of_int current / of_int tot) * 55)\<rfloor>"

definition spec_progress :: "int \<Rightarrow> int \<Rightarrow> int" where
  \<comment> \<open>the specification's formula, in exact arithmetic:
      30 + floor(current/total * 55), at most 85\<close>
  "spec_progress current tot = min (30 + \<lfloor>rat_of_int current / rat_of_int tot * 55\<rfloor>) 85"

text \<open>
  The logged values of a task's record from position \<open>k\<close> of the log on, and what the
  proofs maintain about them: every assignment is logged, so the last logged value is the
  record in the store; \<open>progress_ok\<close> adds that the logged \<open>progress\<close> values never
  decrease, start at 0 or above and have reached at most \<open>b\<close>. \<open>hook_bound j n\<close> is the
  progress after the j-th of n hook calls, and \<open>task_lifetime\<close> is what a task's record
  goes through from its Submit to the end of its runner.
\<close>

definition polled_from :: "nat \<Rightarrow> string \<Rightarrow> world \<Rightarrow> TaskInfo list" where
  "polled_from k tid w = map snd (filter (\<lambda>x. fst x = tid) (drop k (history w)))"

definition logged :: "nat \<Rightarrow> string \<Rightarrow> world \<Rightarrow> bool" where
  "logged k tid w =
     (k \<le> length (history w) \<and> polled_from k tid w \<noteq> [] \<and>
      tasks_cache w tid = Some (last (polled_from k tid w)))"

definition progress_ok :: "nat \<Rightarrow> string \<Rightarrow> int \<Rightarrow> world \<Rightarrow> bool" where
  "progress_ok k tid b w =
     (logged k tid w \<and> sorted (map progress (polled_from k tid w)) \<and>
      0 \<le> progress (hd (polled_from k tid w)) \<and> progress (last (polled_from k tid w)) \<le> b)"

definition hook_bound :: "nat \<Rightarrow> nat \<Rightarrow> int" where
  "hook_bound j n = (if j = 0 then 30 else min (30 + hook_share (int j) (int n)) 85)"

definition task_lifetime ::
  "env \<Rightarrow> UploadFile \<Rightarrow> int \<Rightarrow> string \<Rightarrow> env \<Rightarrow> world \<Rightarrow> TaskInfo list" where
  "task_lifetime e file d f e' w =
     polled_from (length (history w)) (uuid4 e)
       (process_ppt_task e' (uuid4 e) (NamedTemporaryFile e ''.pptx'') d f
          (snd (convert_ppt_async e file d f w)))"

text \<open>
  \<open>converter_call\<close> is the call of \<^verbatim>\<open>exporter.export\<close> in the runner's \<^verbatim>\<open>try\<close> suite,
  with the state the preceding statements have produced. \<open>images_ok\<close> says that no logged
  value of the record has images yet, and an exception is \<open>described\<close> when it comes out of
  a library call or has a text.
\<close>

definition converter_call ::
  "env \<Rightarrow> string \<Rightarrow> string \<Rightarrow> int \<Rightarrow> string \<Rightarrow> world \<Rightarrow> (exn + string list) \<times> world" where
  "converter_call e tid temp_file_path dpi_arg format_arg w =
     export e
       (PPTExporter_init e
          (Some \<lparr>dpi = dpi_arg, format = format_arg, quality = 95, width = None, height = None\<rparr>))
       temp_file_path (os_path_join (OUTPUT_BASE_DIR e) tid) ''auto'' ''slide''
       (Some (progress_callback e tid)) (prepare e tid temp_file_path w)"

definition images_ok :: "nat \<Rightarrow> string \<Rightarrow> world \<Rightarrow> bool" where
  "images_ok k tid w = (logged k tid w \<and> (\<forall>r\<in>set (polled_from k tid w). images r = []))"

fun from_library :: "exn \<Rightarrow> bool" where
  "from_library (LibraryError m) = True"
| "from_library ex = False"

definition described :: "exn \<Rightarrow> bool" where
  "described ex = (from_library ex \<or> str_exn ex \<noteq> [])"

section \<open>Rounding to a float is monotone\<close>

lemma rhe_floor_le: "\<lfloor>x\<rfloor> \<le> round_half_even x"
  by (simp add: round_half_even_def Let_def)

lemma rhe_le_floor1: "round_half_even x \<le> \<lfloor>x\<rfloor> + 1"
  by (simp add: round_half_even_def Let_def)

lemma rhe_of_int [simp]: "round_half_even (of_int n) = n"
  by (simp add: round_half_even_def Let_def)

lemma rhe_mono:
  assumes "x \<le> y"
  shows "round_half_even x \<le> round_half_even y"
proof (cases "\<lfloor>x\<rfloor> = \<lfloor>y\<rfloor>")
  case True
  with assms show ?thesis
    by (auto simp: round_half_even_def Let_def)
next
  case False
  with assms have "\<lfloor>x\<rfloor> < \<lfloor>y\<rfloor>" using floor_mono [of x y] by linarith
  then have "round_half_even x \<le> \<lfloor>y\<rfloor>" using rhe_le_floor1 [of x] by linarith
  then show ?thesis using rhe_floor_le [of y] by linarith
qed

lemma bitlen_powi_bounds:
  assumes "0 < n"
  shows "(2::rat) powi (bitlen n - 1) \<le> of_int n" and "of_int n < (2::rat) powi (bitlen n)"
proof -
  have b: "1 \<le> bitlen n" using assms by (auto simp: bitlen_alt_def)
  from bitlen_bounds [OF assms]
  have l: "2 ^ nat (bitlen n - 1) \<le> n" and u: "n < 2 ^ nat (bitlen n)" by auto
  from l have "rat_of_int (2 ^ nat (bitlen n - 1)) \<le> rat_of_int n" by (simp only: of_int_le_iff)
  then show "(2::rat) powi (bitlen n - 1) \<le> of_int n"
    using b by (simp add: power_int_nonneg_exp)
  from u have "rat_of_int n < rat_of_int (2 ^ nat (bitlen n))" by (simp only: of_int_less_iff)
  then show "of_int n < (2::rat) powi (bitlen n)"
    using b by (simp add: power_int_nonneg_exp)
qed

lemma binade_bounds:
  assumes "0 < x"
  shows "2 powi (binade x) \<le> x" and "x < 2 powi (binade x + 1)"
proof -
  obtain n d where q: "quotient_of x = (n, d)" by (cases "quotient_of x")
  then have d: "0 < d" and x: "x = of_int n / of_int d"
    using quotient_of_denom_pos quotient_of_div by auto
  with assms have n: "0 < n" by (simp add: zero_less_divide_iff)
  define e where "e = bitlen n - bitlen d"
  note bn = bitlen_powi_bounds [OF n] and bd = bitlen_powi_bounds [OF d]
  have dpos: "0 < rat_of_int d" and npos: "0 < rat_of_int n" using d n by simp_all
  have "x < 2 powi (bitlen n) / 2 powi (bitlen d - 1)"
    unfolding x using bn(2) bd(1) npos
    by (intro frac_less) auto
  also have "\<dots> = 2 powi (e + 1)"
    by (simp add: e_def power_int_diff [symmetric] algebra_simps)
  finally have up: "x < 2 powi (e + 1)" .
  have "(2::rat) powi (bitlen n - 1) / 2 powi (bitlen d) < x"
    unfolding x using bn(1) bd(2) dpos
    by (intro frac_less2) auto
  also have "(2::rat) powi (bitlen n - 1) / 2 powi (bitlen d) = 2 powi (e - 1)"
    by (simp add: e_def power_int_diff [symmetric] algebra_simps)
  finally have lo: "2 powi (e - 1) < x" .
  have b: "binade x = (if 2 powi e \<le> x then e else e - 1)"
    by (simp add: binade_def q e_def Let_def)
  show "2 powi (binade x) \<le> x" using lo by (simp add: b)
  show "x < 2 powi (binade x + 1)" using up by (auto simp add: b)
qed

lemma binade_mono:
  assumes "0 < x" "x \<le> y"
  shows "binade x \<le> binade y"
proof (rule ccontr)
  assume "\<not> binade x \<le> binade y"
  then have "binade y + 1 \<le> binade x" by simp
  then have "(2::rat) powi (binade y + 1) \<le> 2 powi (binade x)"
    by (intro power_int_increasing) auto
  also have "\<dots> \<le> x" using binade_bounds(1) assms by simp
  also have "x \<le> y" by fact
  also have "y < 2 powi (binade y + 1)" using binade_bounds(2) assms by simp
  finally show False by simp
qed

lemma pow2_split: "(2::rat) powi a * 2 powi b = 2 powi (a + b)"
  by (simp add: power_int_add)

lemma fl_pos_upper:
  assumes "0 < x"
  shows "fl_pos x \<le> 2 powi (max (binade x) (- 1022) + 1)"
proof -
  define e where "e = max (binade x) (- 1022)"
  define u :: rat where "u = 2 powi (e - 52)"
  define r where "r = round_half_even (x / u)"
  have u: "0 < u" by (simp add: u_def)
  have ar: "(53::int) + (e - 52) = e + 1" by simp
  have step: "(2::rat) powi 53 * u = 2 powi (e + 1)"
    unfolding u_def pow2_split by (simp only: ar)
  have p53: "(2::rat) powi 53 = of_int (2 ^ 53)" by simp
  have "x < 2 powi (binade x + 1)" using binade_bounds(2) assms by simp
  also have "\<dots> \<le> 2 powi (e + 1)" by (intro power_int_increasing) (auto simp: e_def)
  finally have "x < 2 powi 53 * u" by (simp only: step)
  then have "x / u \<le> of_int (2 ^ 53)"
    using u unfolding p53 [symmetric] by (simp add: pos_divide_le_eq)
  then have "r \<le> 2 ^ 53"
    unfolding r_def using rhe_mono [of "x / u" "of_int (2 ^ 53)"] by (simp only: rhe_of_int)
  then have "rat_of_int r \<le> rat_of_int (2 ^ 53)"
    by (simp only: of_int_le_iff)
  then have "of_int r * u \<le> of_int (2 ^ 53) * u"
    using u by (simp only: mult_le_cancel_right_pos)
  then have "of_int r * u \<le> 2 powi (e + 1)"
    by (simp only: p53 [symmetric] step)
  moreover have "fl_pos x = of_int r * u"
    by (simp only: fl_pos_def Let_def r_def u_def e_def)
  ultimately show ?thesis by (simp only: e_def)
qed

lemma fl_pos_lower:
  assumes "0 < x" "- 1022 \<le> binade x"
  shows "2 powi (binade x) \<le> fl_pos x"
proof -
  define u :: rat where "u = 2 powi (binade x - 52)"
  define r where "r = round_half_even (x / u)"
  have u: "0 < u" by (simp add: u_def)
  have m: "max (binade x) (- 1022) = binade x" using assms by simp
  have ar: "(52::int) + (binade x - 52) = binade x" by simp
  have step: "(2::rat) powi 52 * u = 2 powi (binade x)"
    unfolding u_def pow2_split by (simp only: ar)
  have p52: "(2::rat) powi 52 = of_int (2 ^ 52)" by simp
  have "(2::rat) powi 52 * u \<le> x" using binade_bounds(1) assms by (simp only: step)
  then have "of_int (2 ^ 52) \<le> x / u"
    using u unfolding p52 [symmetric] by (simp add: pos_le_divide_eq)
  then have "2 ^ 52 \<le> r"
    unfolding r_def using rhe_mono [of "of_int (2 ^ 52)" "x / u"] by (simp only: rhe_of_int)
  then have "rat_of_int (2 ^ 52) \<le> rat_of_int r"
    by (simp only: of_int_le_iff)
  then have "of_int (2 ^ 52) * u \<le> of_int r * u"
    using u by (simp only: mult_le_cancel_right_pos)
  then have "2 powi (binade x) \<le> of_int r * u"
    by (simp only: p52 [symmetric] step)
  moreover have "fl_pos x = of_int r * u"
    by (simp only: fl_pos_def Let_def r_def u_def m)
  ultimately show ?thesis by simp
qed

lemma fl_pos_nonneg:
  assumes "0 < x"
  shows "0 \<le> fl_pos x"
proof -
  define u :: rat where "u = 2 powi (max (binade x) (- 1022) - 52)"
  have "0 \<le> x / u" using assms by (simp add: u_def)
  then have "0 \<le> \<lfloor>x / u\<rfloor>" by simp
  then have "0 \<le> round_half_even (x / u)"
    using rhe_floor_le [of "x / u"] by linarith
  then show ?thesis by (simp add: fl_pos_def Let_def u_def)
qed

lemma fl_pos_mono:
  assumes "0 < x" "x \<le> y"
  shows "fl_pos x \<le> fl_pos y"
proof -
  define ex ey where "ex = max (binade x) (- 1022)" and "ey = max (binade y) (- 1022)"
  have y: "0 < y" using assms by simp
  have le: "ex \<le> ey" using binade_mono [OF assms] by (simp add: ex_def ey_def)
  show ?thesis
  proof (cases "ex = ey")
    case True
    define u :: rat where "u = 2 powi (ex - 52)"
    have u: "0 < u" by (simp add: u_def)
    have "x / u \<le> y / u" using assms u by (simp add: divide_right_mono)
    then have "rat_of_int (round_half_even (x / u)) \<le> rat_of_int (round_half_even (y / u))"
      using rhe_mono by (simp only: of_int_le_iff)
    then have "of_int (round_half_even (x / u)) * u \<le> of_int (round_half_even (y / u)) * u"
      using u by (simp only: mult_le_cancel_right_pos)
    then show ?thesis
      using True by (simp add: fl_pos_def Let_def u_def ex_def ey_def)
  next
    case False
    with le have lt: "ex + 1 \<le> ey" by simp
    then have bey: "ey = binade y" "- 1022 \<le> binade y" by (auto simp: ex_def ey_def)
    have "fl_pos x \<le> 2 powi (ex + 1)" using fl_pos_upper [OF assms(1)] by (simp add: ex_def)
    also have "\<dots> \<le> 2 powi ey" using lt by (intro power_int_increasing) auto
    also have "\<dots> \<le> fl_pos y" using fl_pos_lower [OF y bey(2)] by (simp add: bey(1))
    finally show ?thesis .
  qed
qed

lemma fl_mono:
  assumes "x \<le> y"
  shows "fl x \<le> fl y"
proof -
  consider "0 < x" | "x = 0" | "x < 0" "0 \<le> y" | "x < 0" "y < 0" by linarith
  then show ?thesis
  proof cases
    case 1
    then show ?thesis using assms fl_pos_mono [of x y] by (simp add: fl_def)
  next
    case 2
    then show ?thesis using assms fl_pos_nonneg [of y] by (auto simp: fl_def)
  next
    case 3
    then show ?thesis using fl_pos_nonneg [of "- x"] fl_pos_nonneg [of y] by (auto simp: fl_def)
  next
    case 4
    then show ?thesis using assms fl_pos_mono [of "- y" "- x"] by (simp add: fl_def)
  qed
qed

lemma fl_1: "fl 1 = 1"
  by code_simp

lemma fl_55: "fl 55 = 55"
  by code_simp

lemma fl_0: "fl 0 = 0"
  by (simp add: fl_def)


lemma rhe_close: "\<bar>of_int (round_half_even x) - x\<bar> \<le> 1 / 2"
proof -
  have "of_int \<lfloor>x\<rfloor> \<le> x" "x < of_int \<lfloor>x\<rfloor> + 1" by linarith+
  then show ?thesis
    by (auto simp: round_half_even_def Let_def abs_le_iff)
qed

lemma fl_pos_close:
  assumes "0 < x" "- 1022 \<le> binade x"
  shows "\<bar>fl_pos x - x\<bar> \<le> x / 2 ^ 53"
proof -
  define u :: rat where "u = 2 powi (binade x - 52)"
  define r where "r = round_half_even (x / u)"
  have u: "0 < u" by (simp add: u_def)
  have m: "max (binade x) (- 1022) = binade x" using assms by simp
  have f: "fl_pos x = of_int r * u"
    by (simp only: fl_pos_def Let_def r_def u_def m)
  have ar: "(52::int) + (binade x - 52) = binade x" by simp
  have step: "(2::rat) powi 52 * u = 2 powi (binade x)"
    unfolding u_def pow2_split by (simp only: ar)
  have "(2::rat) powi 52 * u \<le> x" using binade_bounds(1) assms by (simp only: step)
  then have ux: "u \<le> x / 2 ^ 52" by (simp add: pos_le_divide_eq mult.commute)
  have "of_int r * u - x = (of_int r - x / u) * u"
    using u by (simp add: left_diff_distrib)
  then have "\<bar>of_int r * u - x\<bar> = \<bar>of_int r - x / u\<bar> * u"
    using u by (simp only: abs_mult abs_of_pos)
  also have "\<dots> \<le> (1 / 2) * u"
    using rhe_close [of "x / u"] u unfolding r_def by (intro mult_right_mono) auto
  also have "\<dots> \<le> (1 / 2) * (x / 2 ^ 52)" using ux by simp
  also have "\<dots> = x / 2 ^ 53" by simp
  finally show ?thesis by (simp only: f)
qed

lemma binade_lower:
  assumes "0 < x" "2 powi k \<le> x"
  shows "k \<le> binade x"
proof (rule ccontr)
  assume "\<not> k \<le> binade x"
  then have "binade x + 1 \<le> k" by simp
  then have "(2::rat) powi (binade x + 1) \<le> 2 powi k"
    by (intro power_int_increasing) auto
  with binade_bounds(2) [OF assms(1)] assms(2) show False by simp
qed

section \<open>The progress hook\<close>

lemma assign_cache_Some:
  "tasks_cache w tid = Some t \<Longrightarrow> tasks_cache (assign tid f w) tid = Some (f t)"
  by (simp add: assign_def)

lemma assign_cache_other:
  "tid' \<noteq> tid \<Longrightarrow> tasks_cache (assign tid f w) tid' = tasks_cache w tid'"
  by (simp add: assign_def split: option.splits)

lemma assign_paths [simp]: "paths (assign tid f w) = paths w"
  by (simp add: assign_def split: option.splits)

lemma assign_background [simp]: "background_tasks (assign tid f w) = background_tasks w"
  by (simp add: assign_def split: option.splits)

lemma small_below_overflow:
  assumes "0 \<le> x" "x \<le> 55"
  shows "\<not> 2 powi 1024 \<le> \<bar>x :: rat\<bar>"
proof -
  have "(2::rat) powi 6 \<le> 2 powi 1024" by (intro power_int_increasing) auto
  moreover have "x < 2 powi 6" using assms by simp
  ultimately show ?thesis using assms by simp
qed

lemma unit_quotient:
  assumes "1 \<le> c" "c \<le> t"
  shows "py_truediv c t = Inr (fl (of_int c / of_int t))"
    and "0 \<le> fl (of_int c / of_int t)" and "fl (of_int c / of_int t) \<le> 1"
proof -
  have "(0::rat) \<le> of_int c / of_int t" using assms by simp
  from fl_mono [OF this] show lo: "0 \<le> fl (of_int c / of_int t)" by (simp add: fl_0)
  have "rat_of_int c / of_int t \<le> 1" using assms by simp
  from fl_mono [OF this] show hi: "fl (of_int c / of_int t) \<le> 1" by (simp add: fl_1)
  from lo hi have "\<not> 2 powi 1024 \<le> \<bar>fl (of_int c / of_int t)\<bar>"
    by (intro small_below_overflow) auto
  then show "py_truediv c t = Inr (fl (of_int c / of_int t))"
    using assms by (simp add: py_truediv_def Let_def)
qed

lemma scaled_quotient:
  assumes "0 \<le> q" "q \<le> 1"
  shows "float_mul q 55 = Some (fl (q * 55))"
    and "0 \<le> fl (q * 55)" and "fl (q * 55) \<le> 55"
proof -
  have "0 \<le> q * 55" using assms by simp
  from fl_mono [OF this] show lo: "0 \<le> fl (q * 55)" by (simp add: fl_0)
  have "q * 55 \<le> 55" using assms by simp
  from fl_mono [OF this] show hi: "fl (q * 55) \<le> 55" by (simp add: fl_55)
  from lo hi have "\<not> 2 powi 1024 \<le> \<bar>fl (q * 55)\<bar>" by (rule small_below_overflow)
  then show "float_mul q 55 = Some (fl (q * 55))" by (simp add: float_mul_def Let_def)
qed

lemma hook_share_range:
  assumes "1 \<le> c" "c \<le> t"
  shows "0 \<le> hook_share c t" and "hook_share c t \<le> 55"
proof -
  note q = unit_quotient [OF assms]
  note p = scaled_quotient [OF q(2) q(3)]
  show "0 \<le> hook_share c t" using p(2) by (simp add: hook_share_def)
  show "hook_share c t \<le> 55" using p(3) by (simp add: hook_share_def floor_le_iff)
qed

lemma hook_share_mono:
  assumes "1 \<le> t" "c \<le> c'"
  shows "hook_share c t \<le> hook_share c' t"
proof -
  have "rat_of_int c / of_int t \<le> of_int c' / of_int t"
    using assms by (simp add: divide_right_mono)
  then have "fl (of_int c / of_int t) * 55 \<le> fl (of_int c' / of_int t) * 55"
    using fl_mono by simp
  then show ?thesis unfolding hook_share_def by (intro floor_mono fl_mono)
qed

lemma progress_callback_run:
  assumes "tasks_cache w tid = Some t" "1 \<le> c" "c \<le> n"
  shows "progress_callback e tid c n fname w =
           (None, assigns tid
                    [\<lambda>t. t\<lparr>current_slide := c\<rparr>,
                     \<lambda>t. t\<lparr>total_slides := n\<rparr>,
                     \<lambda>t. t\<lparr>progress := min (30 + hook_share c n) 85\<rparr>,
                     \<lambda>t. t\<lparr>status_message :=
                            MSG_SAVED @ fname @ '' ('' @ str_int c @ ''/'' @ str_int n @ '')''\<rparr>,
                     \<lambda>t. t\<lparr>updated_at := now e\<rparr>] w)"
proof -
  note q = unit_quotient [OF assms(2,3)]
  note p = scaled_quotient [OF q(2) q(3)]
  show ?thesis
    using assms(1) q(1) p(1) p(2)
    by (simp add: progress_callback_def assigns_def py_int_def hook_share_def Let_def)
qed

lemma hook_share_near_floor:
  assumes "1 \<le> c" "c \<le> t" "t \<le> 2 ^ 40"
  shows "(55 * c) div t - 1 \<le> hook_share c t" and "hook_share c t \<le> (55 * c) div t"
proof -
  define q :: rat where "q = of_int c / of_int t"
  define v :: rat where "v = 55 * q"
  define p where "p = fl q * 55"
  define eps :: rat where "eps = 1 / 2 ^ 53"
  have tpos: "0 < rat_of_int t" "1 \<le> rat_of_int c" using assms by simp_all
  have t40: "rat_of_int t \<le> 2 ^ 40" using assms(3) by (metis of_int_le_iff of_int_numeral of_int_power)
  have q0: "0 < q" using assms by (simp add: q_def)
  have q1: "q \<le> 1" using assms by (simp add: q_def)
  have "1 / 2 ^ 40 \<le> 1 / rat_of_int t" using tpos t40 by (intro divide_left_mono) auto
  also have "\<dots> \<le> q" unfolding q_def using tpos by (intro divide_right_mono) auto
  finally have qlow: "1 / 2 ^ 40 \<le> q" .
  have "(2::rat) powi (- 40) = 1 / 2 ^ 40" by (simp add: power_int_minus_divide)
  with qlow have "- 40 \<le> binade q" by (intro binade_lower [OF q0]) simp
  then have qn: "- 1022 \<le> binade q" by simp
  have flq: "fl q = fl_pos q" using q0 by (simp add: fl_def)
  from fl_pos_close [OF q0 qn] have dq: "\<bar>fl q - q\<bar> \<le> q * eps" by (simp add: flq eps_def)
  have eps: "0 < eps" "eps \<le> 1 / 2" by (simp_all add: eps_def)
  from dq have fq_lo: "q * (1 - eps) \<le> fl q" and fq_hi: "fl q \<le> q * (1 + eps)"
    by (simp_all add: abs_le_iff algebra_simps)
  have "q * (1 / 2) \<le> q * (1 - eps)" using q0 eps by (intro mult_left_mono) auto
  with fq_lo have fq_half: "q / 2 \<le> fl q" by simp
  have p0: "0 < p" using fq_half q0 by (simp add: p_def)
  have "1 / 2 ^ 41 \<le> q / 2" using qlow by simp
  also have "\<dots> \<le> p" using fq_half q0 by (simp add: p_def)
  finally have plow: "1 / 2 ^ 41 \<le> p" .
  have "(2::rat) powi (- 41) = 1 / 2 ^ 41" by (simp add: power_int_minus_divide)
  with plow have "- 41 \<le> binade p" by (intro binade_lower [OF p0]) simp
  then have pn: "- 1022 \<le> binade p" by simp
  have flp: "fl p = fl_pos p" using p0 by (simp add: fl_def)
  from fl_pos_close [OF p0 pn] have dp: "\<bar>fl p - p\<bar> \<le> p * eps" by (simp add: flp eps_def)
  have pv: "\<bar>p - v\<bar> \<le> v * eps"
    using dq by (simp add: p_def v_def abs_le_iff algebra_simps)
  have v55: "v \<le> 55" "0 < v" using q0 q1 by (simp_all add: v_def)
  have p83: "p \<le> 83"
  proof -
    have "p \<le> 55 * (q * (1 + eps))" using fq_hi by (simp add: p_def)
    also have "\<dots> \<le> 55 * (1 * (1 + 1 / 2))" using q0 q1 eps
      by (intro mult_left_mono mult_mono) auto
    finally show ?thesis by simp
  qed
  have "\<bar>fl p - v\<bar> \<le> \<bar>fl p - p\<bar> + \<bar>p - v\<bar>" by simp
  also have "\<dots> \<le> p * eps + v * eps" using dp pv by simp
  also have "\<dots> \<le> 83 * eps + 55 * eps" using p83 v55 eps
    by (intro add_mono mult_right_mono) auto
  also have "\<dots> < 1 / 2 ^ 45" by (simp add: eps_def)
  finally have close: "\<bar>fl p - v\<bar> < 1 / 2 ^ 45" .
  define k where "k = (55 * c) div t"
  define r where "r = (55 * c) mod t"
  have kr: "55 * c = k * t + r" and r: "0 \<le> r" "r \<le> t - 1"
    using assms by (simp_all add: k_def r_def)
  have "v = of_int (55 * c) / of_int t" by (simp add: v_def q_def)
  also have "\<dots> = of_int k + of_int r / of_int t"
    using tpos by (simp add: kr add_divide_distrib)
  finally have v: "v = of_int k + of_int r / of_int t" .
  have rt0: "0 \<le> rat_of_int r / of_int t" using r tpos by simp
  have "rat_of_int r / of_int t \<le> (of_int t - 1) / of_int t"
    using r tpos by (intro divide_right_mono) auto
  also have "\<dots> = 1 - 1 / of_int t" using tpos by (simp add: diff_divide_distrib)
  finally have rt1: "rat_of_int r / of_int t \<le> 1 - 1 / of_int t" .
  have tinv: "1 / 2 ^ 45 < 1 / rat_of_int t"
  proof -
    have "(1::rat) / 2 ^ 45 < 1 / 2 ^ 40" by simp
    also have "\<dots> \<le> 1 / rat_of_int t" using tpos t40 by (intro divide_left_mono) auto
    finally show ?thesis .
  qed
  define d :: rat where "d = 1 / 2 ^ 45"
  define a :: rat where "a = 1 / of_int t"
  define w :: rat where "w = of_int r / of_int t"
  have d1: "d < a" "d \<le> 1" using tinv by (simp_all add: d_def a_def)
  have cl: "fl p - v < d" "v - fl p < d"
    using close unfolding d_def [symmetric] abs_less_iff by linarith+
  have vw: "v = of_int k + w" "0 \<le> w" "w \<le> 1 - a"
    using v rt0 rt1 by (simp_all only: w_def a_def)
  have up: "fl p < of_int k + 1" using cl vw d1 by linarith
  have lo: "of_int k - 1 \<le> fl p" using cl vw d1 by linarith
  have hs: "hook_share c t = \<lfloor>fl p\<rfloor>" by (simp add: hook_share_def p_def q_def)
  show "(55 * c) div t - 1 \<le> hook_share c t"
    unfolding hs k_def [symmetric] using lo by (simp add: le_floor_iff)
  show "hook_share c t \<le> (55 * c) div t"
    unfolding hs k_def [symmetric] using up by (simp add: floor_le_iff)
qed

text \<open>
  Claim C2, as the program has it. When the hook is called with \<open>1 \<le> current \<le> total\<close>
  for a task in the store, it raises nothing, sets \<open>progress\<close> to
  \<open>min (30 + int ((current / total) * 55)) 85\<close> with the quotient and the product each
  rounded to a float, and overwrites \<open>status_message\<close> with a text that ends in
  \<open>(current/total)\<close>. The value lies between 30 and 85; up to \<open>2 ^ 40\<close> images it is the
  exact \<open>min (30 + floor (current / total * 55)) 85\<close> or one less.
\<close>

theorem progress_callback_sets_progress:
  assumes "tasks_cache w tid = Some t" and "1 \<le> current" and "current \<le> tot"
  shows "fst (progress_callback e tid current tot fname w) = None \<and>
         map_option progress (tasks_cache (snd (progress_callback e tid current tot fname w)) tid)
           = Some (min (30 + \<lfloor>fl (fl (of_int current / of_int tot) * 55)\<rfloor>) 85) \<and>
         map_option status_message
             (tasks_cache (snd (progress_callback e tid current tot fname w)) tid)
           = Some (MSG_SAVED @ fname @ '' ('' @ str_int current @ ''/'' @ str_int tot @ '')'') \<and>
         30 \<le> min (30 + \<lfloor>fl (fl (of_int current / of_int tot) * 55)\<rfloor>) 85 \<and>
         (tot \<le> 2 ^ 40 \<longrightarrow>
            spec_progress current tot - 1 \<le> min (30 + \<lfloor>fl (fl (of_int current / of_int tot) * 55)\<rfloor>) 85 \<and>
            min (30 + \<lfloor>fl (fl (of_int current / of_int tot) * 55)\<rfloor>) 85 \<le> spec_progress current tot)"
proof -
  note run = progress_callback_run [OF assms, of e fname]
  have share: "\<lfloor>fl (fl (of_int current / of_int tot) * 55)\<rfloor> = hook_share current tot"
    by (simp add: hook_share_def)
  have spec: "spec_progress current tot = min (30 + (55 * current) div tot) 85"
  proof -
    have "rat_of_int current / rat_of_int tot * 55 = of_int (55 * current) / of_int tot" by simp
    then show ?thesis
      unfolding spec_progress_def by (simp only: floor_divide_of_int_eq)
  qed
  have a: "fst (progress_callback e tid current tot fname w) = None"
    by (simp add: run)
  have b: "map_option progress (tasks_cache (snd (progress_callback e tid current tot fname w)) tid)
           = Some (min (30 + hook_share current tot) 85)"
    using assms(1) by (simp add: run assigns_def assign_def)
  have c: "map_option status_message
             (tasks_cache (snd (progress_callback e tid current tot fname w)) tid)
           = Some (MSG_SAVED @ fname @ '' ('' @ str_int current @ ''/'' @ str_int tot @ '')'')"
    using assms(1) by (simp add: run assigns_def assign_def)
  have d: "30 \<le> min (30 + hook_share current tot) 85"
    using hook_share_range(1) [OF assms(2,3)] by simp
  have e: "spec_progress current tot - 1 \<le> min (30 + hook_share current tot) 85 \<and>
           min (30 + hook_share current tot) 85 \<le> spec_progress current tot"
    if "tot \<le> 2 ^ 40"
    using hook_share_near_floor [OF assms(2,3) that] unfolding spec by linarith
  show ?thesis
    unfolding share using a b c d e by blast
qed

theorem progress_callback_sets_progress_witness:
  "tasks_cache submitted_world ''task-1'' = Some pending_task \<and> (1::int) \<le> 3 \<and> (3::int) \<le> 11 \<and>
   fst (progress_callback example_env ''task-1'' 3 11 ''slide_003.png'' submitted_world) = None \<and>
   map_option progress
     (tasks_cache (snd (progress_callback example_env ''task-1'' 3 11 ''slide_003.png''
        submitted_world)) ''task-1'')
     = Some (min (30 + \<lfloor>fl (fl (of_int 3 / of_int 11) * 55)\<rfloor>) 85)"
proof -
  have h: "tasks_cache submitted_world ''task-1'' = Some pending_task"
    by (simp add: submitted_world_def)
  have i: "(1::int) \<le> 3" "(3::int) \<le> 11" by simp_all
  from progress_callback_sets_progress [OF h i, of example_env "''slide_003.png''"]
  show ?thesis using h by simp
qed

text \<open>
  Claim C2 as stated fails on the third of eleven images: the float product is just below
  15, so the hook stores 44 where the exact formula gives 45.
\<close>

theorem progress_callback_third_of_eleven:
  "map_option progress
     (tasks_cache (snd (progress_callback example_env ''task-1'' 3 11 ''slide_003.png''
        submitted_world)) ''task-1'') = Some 44 \<and>
   spec_progress 3 11 = 45"
proof -
  have h: "tasks_cache submitted_world ''task-1'' = Some pending_task"
    by (simp add: submitted_world_def)
  have s: "hook_share 3 11 = 14" by code_simp
  have "map_option progress
     (tasks_cache (snd (progress_callback example_env ''task-1'' 3 11 ''slide_003.png''
        submitted_world)) ''task-1'') = Some 44"
    using h by (simp add: progress_callback_run [OF h] assigns_def assign_def s)
  moreover have "spec_progress 3 11 = 45" by (simp add: spec_progress_def)
  ultimately show ?thesis by simp
qed

section \<open>Validation of the upload's name\<close>

text \<open>
  Claim C8. A Submit whose file name ends in neither \<open>.ppt\<close> nor \<open>.pptx\<close> is answered
  with HTTP 400 and leaves the whole state as it was: no record, no file, no scheduled
  task.
\<close>

theorem convert_ppt_async_rejects:
  assumes "\<not> endswith_ppt (upload_filename file)"
  shows "convert_ppt_async e file d f w = (Inl (HTTPException 400 MSG_ONLY_PPT), w)"
  using assms by (simp add: convert_ppt_async_def)

theorem convert_ppt_async_rejects_witness:
  "\<not> endswith_ppt (upload_filename notes_upload) \<and>
   convert_ppt_async example_env notes_upload 300 ''png'' initial_world
     = (Inl (HTTPException 400 MSG_ONLY_PPT), initial_world)"
proof -
  have h: "\<not> endswith_ppt (upload_filename notes_upload)"
    by (simp add: notes_upload_def endswith_ppt_def endswith_def)
  from convert_ppt_async_rejects [OF h] show ?thesis using h by simp
qed

text \<open>
  Claim C10. Both endpoints answer 400 exactly when the name fails the case-sensitive
  suffix test; a name whose suffix matches only after lowering, such as \<open>DECK.PPTX\<close>, is
  rejected by both, while the converter's own check of an existing file lowers the path
  first and lets it pass.
\<close>

theorem upload_suffix_case_sensitive:
  "(fst (convert_ppt_async e file d f w) = Inl (HTTPException 400 MSG_ONLY_PPT))
     = (\<not> (endswith (upload_filename file) ''.ppt'' \<or> endswith (upload_filename file) ''.pptx'')) \<and>
   (fst (convert_ppt_sync e file d f w) = Inl (HTTPException 400 MSG_ONLY_PPT_FILES))
     = (\<not> (endswith (upload_filename file) ''.ppt'' \<or> endswith (upload_filename file) ''.pptx'')) \<and>
   (endswith_ppt (lower (upload_filename file)) \<and> \<not> endswith_ppt (upload_filename file) \<longrightarrow>
      fst (convert_ppt_async e file d f w) = Inl (HTTPException 400 MSG_ONLY_PPT) \<and>
      fst (convert_ppt_sync e file d f w) = Inl (HTTPException 400 MSG_ONLY_PPT_FILES) \<and>
      (upload_filename file \<in> paths s \<longrightarrow> check_input (upload_filename file) s = None))"
proof -
  have sync: "fst (convert_ppt_sync e file d f w) \<noteq> Inl (HTTPException 400 MSG_ONLY_PPT_FILES)"
    if "endswith_ppt (upload_filename file)"
    using that
    by (simp add: convert_ppt_sync_def Let_def split: prod.splits sum.splits)
  show ?thesis
    using sync
    by (auto simp: convert_ppt_async_def convert_ppt_sync_def Let_def endswith_ppt_def
        check_input_def)
qed

theorem upload_suffix_case_sensitive_witness:
  "endswith_ppt (lower (upload_filename upper_upload)) \<and>
   \<not> endswith_ppt (upload_filename upper_upload) \<and>
   fst (convert_ppt_async example_env upper_upload 300 ''png'' initial_world)
     = Inl (HTTPException 400 MSG_ONLY_PPT) \<and>
   fst (convert_ppt_sync example_env upper_upload 300 ''png'' initial_world)
     = Inl (HTTPException 400 MSG_ONLY_PPT_FILES) \<and>
   check_input ''DECK.PPTX'' (initial_world\<lparr>paths := {''DECK.PPTX''}\<rparr>) = None"
proof -
  have l: "lower ''DECK.PPTX'' = ''deck.pptx''"
    by code_simp
  have h: "endswith_ppt (lower (upload_filename upper_upload))"
    "\<not> endswith_ppt (upload_filename upper_upload)"
    by (simp_all add: upper_upload_def l endswith_ppt_def endswith_def)
  have n: "upload_filename upper_upload = ''DECK.PPTX''"
    by (simp add: upper_upload_def)
  from upload_suffix_case_sensitive
    [of example_env upper_upload 300 "''png''" initial_world "initial_world\<lparr>paths := {''DECK.PPTX''}\<rparr>"]
  show ?thesis using h by (simp add: n)
qed

section \<open>The pdf2image method\<close>

text \<open>
  Claim C9. With LibreOffice present, the method \<open>pdf2image\<close> is the method
  \<open>libreoffice\<close>: same result, same final state, for the private method and through
  \<open>export\<close>. Without LibreOffice it raises before anything is written: the private method
  leaves the state untouched, and \<open>export\<close> returns an exception having created at most
  the output directory, which it creates before it looks at the method.
\<close>

theorem pdf2image_is_libreoffice:
  "(has_libreoffice self \<longrightarrow>
      export_with_pdf2image e self p out pre cb s = export_with_libreoffice e self p out pre cb s \<and>
      export e self p out ''pdf2image'' pre cb s = export e self p out ''libreoffice'' pre cb s) \<and>
   (\<not> has_libreoffice self \<longrightarrow>
      export_with_pdf2image e self p out pre cb s = (Inl (RuntimeError MSG_NEED_LIBREOFFICE), s) \<and>
      isl (fst (export e self p out ''pdf2image'' pre cb s)) \<and>
      (snd (export e self p out ''pdf2image'' pre cb s) = s \<or>
       snd (export e self p out ''pdf2image'' pre cb s) = makedirs out s))"
  by (simp add: export_def export_with_pdf2image_def select_method_def Let_def
      split: option.splits)

theorem pdf2image_is_libreoffice_witness:
  "has_libreoffice (PPTExporter_init example_env None) \<and>
   export example_env (PPTExporter_init example_env None) ''/tmp/tmpk3.pptx'' ''/app/output/a''
       ''pdf2image'' ''slide'' None submitted_world
     = export example_env (PPTExporter_init example_env None) ''/tmp/tmpk3.pptx'' ''/app/output/a''
       ''libreoffice'' ''slide'' None submitted_world \<and>
   \<not> has_libreoffice (PPTExporter_init bare_env None) \<and>
   isl (fst (export bare_env (PPTExporter_init bare_env None) ''/tmp/tmpk3.pptx'' ''/app/output/a''
       ''pdf2image'' ''slide'' None submitted_world))"
proof -
  have a: "has_libreoffice (PPTExporter_init example_env None)"
    by (simp add: PPTExporter_init_def check_libreoffice_def example_env_def)
  have b: "\<not> has_libreoffice (PPTExporter_init bare_env None)"
    by (simp add: PPTExporter_init_def check_libreoffice_def bare_env_def example_env_def)
  from a b
    pdf2image_is_libreoffice [of "PPTExporter_init example_env None" example_env
      "''/tmp/tmpk3.pptx''" "''/app/output/a''" "''slide''" None submitted_world]
    pdf2image_is_libreoffice [of "PPTExporter_init bare_env None" bare_env
      "''/tmp/tmpk3.pptx''" "''/app/output/a''" "''slide''" None submitted_world]
  show ?thesis by blast
qed

section \<open>Removal of the temporary upload\<close>

lemma finally_block_unlinks: "temp_file_path \<notin> paths (finally_block temp_file_path w)"
  by (simp add: finally_block_def unlink_def)

lemma process_ppt_task_unlinks:
  assumes "tasks_cache w tid = Some t"
  shows "temp_file_path \<notin> paths (process_ppt_task e tid temp_file_path d f w)"
  using assms
  by (simp add: process_ppt_task_def finally_block_unlinks split: prod.splits option.splits)

text \<open>
  Claim C7 at a failing conversion. On a machine without any backend the synchronous
  endpoint answers HTTP 500 and the temporary file it wrote is still there, while the
  background runner in the same situation removes its temporary file.
\<close>

theorem convert_ppt_sync_leaves_upload:
  "fst (convert_ppt_sync bare_env example_upload 300 ''png'' initial_world)
     = Inl (HTTPException 500 (MSG_SYNC_FAILED @ MSG_NO_TOOL)) \<and>
   ''/tmp/tmpk3.pptx'' \<in> paths (snd (convert_ppt_sync bare_env example_upload 300 ''png''
                                       initial_world)) \<and>
   ''/tmp/tmpk3.pptx'' \<notin> paths (process_ppt_task bare_env ''task-1'' ''/tmp/tmpk3.pptx'' 300
                                    ''png'' submitted_world)"
proof -
  have l: "lower ''/tmp/tmpk3.pptx'' = ''/tmp/tmpk3.pptx''"
    by code_simp
  have s: "convert_ppt_sync bare_env example_upload 300 ''png'' initial_world
             = (Inl (HTTPException 500 (MSG_SYNC_FAILED @ MSG_NO_TOOL)),
                initial_world\<lparr>paths := {''/app/output/task-1'', ''/tmp/tmpk3.pptx''}\<rparr>)"
    by (simp add: convert_ppt_sync_def example_upload_def endswith_ppt_def endswith_def
        NamedTemporaryFile_def bare_env_def example_env_def initial_world_def Let_def
        os_path_join_def makedirs_def export_def check_input_def l select_method_def
        PPTExporter_init_def check_libreoffice_def)
  have t: "tasks_cache submitted_world ''task-1'' = Some pending_task"
    by (simp add: submitted_world_def)
  show ?thesis
    using process_ppt_task_unlinks [OF t] by (simp add: s)
qed

section \<open>Histories of a task record\<close>

lemma assigns_Nil [simp]: "assigns tid [] w = w"
  by (simp add: assigns_def)

lemma assigns_Cons [simp]: "assigns tid (f # fs) w = assigns tid fs (assign tid f w)"
  by (simp add: assigns_def)

lemma polled_from_assign:
  assumes "logged k tid w"
  shows "polled_from k tid (assign tid f w) = polled_from k tid w @ [f (last (polled_from k tid w))]"
  using assms by (simp add: logged_def polled_from_def assign_def)

lemma logged_assign:
  assumes "logged k tid w"
  shows "logged k tid (assign tid f w)"
  using assms polled_from_assign [OF assms, of f]
  by (simp add: logged_def assign_def)

lemma polled_from_paths [simp]: "polled_from k tid (w\<lparr>paths := x\<rparr>) = polled_from k tid w"
  by (simp add: polled_from_def)

lemma logged_paths [simp]: "logged k tid (w\<lparr>paths := x\<rparr>) = logged k tid w"
  by (simp add: logged_def)

lemma progress_ok_paths [simp]: "progress_ok k tid b (w\<lparr>paths := x\<rparr>) = progress_ok k tid b w"
  by (simp add: progress_ok_def)

lemma sorted_le_last:
  "sorted (map f xs) \<Longrightarrow> x \<in> set xs \<Longrightarrow> (f x :: int) \<le> f (last xs)"
  by (induction xs) auto

lemma progress_ok_assign:
  assumes "progress_ok k tid b w"
    and "\<And>t. progress t \<le> b \<Longrightarrow> progress t \<le> progress (f t) \<and> progress (f t) \<le> b'"
  shows "progress_ok k tid b' (assign tid f w)"
proof -
  from assms(1) have l: "logged k tid w" by (simp add: progress_ok_def)
  then have ne: "polled_from k tid w \<noteq> []" by (simp add: logged_def)
  have "\<forall>x\<in>set (polled_from k tid w). progress x \<le> progress (last (polled_from k tid w))"
    using assms(1) sorted_le_last [of progress "polled_from k tid w"]
    by (simp add: progress_ok_def)
  moreover have "progress (last (polled_from k tid w)) \<le> b"
    using assms(1) by (simp add: progress_ok_def)
  ultimately show ?thesis
    using assms ne logged_assign [OF l]
    by (fastforce simp: progress_ok_def polled_from_assign [OF l] sorted_append)
qed

lemma progress_ok_set:
  assumes "progress_ok k tid b w" "b \<le> v"
  shows "progress_ok k tid v (assign tid (progress_update (\<lambda>_. v)) w)"
  using assms(1) by (rule progress_ok_assign) (use assms(2) in simp)

lemma progress_ok_keep:
  assumes "progress_ok k tid b w"
  shows "progress_ok k tid b (assign tid (\<lambda>t. status_update (g1 t) t) w)"
    and "progress_ok k tid b (assign tid (\<lambda>t. status_message_update (g2 t) t) w)"
    and "progress_ok k tid b (assign tid (\<lambda>t. updated_at_update (g3 t) t) w)"
    and "progress_ok k tid b (assign tid (\<lambda>t. total_slides_update (g4 t) t) w)"
    and "progress_ok k tid b (assign tid (\<lambda>t. current_slide_update (g5 t) t) w)"
    and "progress_ok k tid b (assign tid (\<lambda>t. images_update (g6 t) t) w)"
    and "progress_ok k tid b (assign tid (\<lambda>t. error_update (g7 t) t) w)"
  by (rule progress_ok_assign [OF assms], simp)+

lemma save_images_inv:
  fixes Q :: "nat \<Rightarrow> 'a fs_scheme \<Rightarrow> bool"
  assumes fr: "\<And>j s x. Q j s \<Longrightarrow> Q j (s\<lparr>paths := x\<rparr>)"
      and st: "\<And>i s fname. 1 \<le> i \<Longrightarrow> i \<le> n \<Longrightarrow> Q (i - 1) s \<Longrightarrow>
                 Q i (snd (cb (int i) (int n) fname s))"
  shows "lo \<le> n \<Longrightarrow> Q lo s \<Longrightarrow>
         \<exists>j\<le>n. Q j (snd (save_images e self out pre (Some cb) n [Suc lo..<Suc n] acc s))"
proof (induction "n - lo" arbitrary: lo acc s)
  case 0
  then show ?case by auto
next
  case (Suc d)
  then have lt: "lo < n" by simp
  then have u: "[Suc lo..<Suc n] = Suc lo # [Suc (Suc lo)..<Suc n]"
    by (simp add: upt_conv_Cons)
  define fname where "fname = slide_filename self pre (Suc lo)"
  define s1 where "s1 = s\<lparr>paths := insert (os_path_join out fname) (paths s)\<rparr>"
  have q1: "Q lo s1" unfolding s1_def by (rule fr) (rule Suc.prems)
  show ?case
  proof (cases "image_save e (Suc lo)")
    case (Some m)
    then show ?thesis using Suc.prems by (auto simp: u Let_def simp del: upt_Suc)
  next
    case None
    obtain r s2 where c: "cb (int (Suc lo)) (int n) fname s1 = (r, s2)"
      by (cases "cb (int (Suc lo)) (int n) fname s1")
    have "Q (Suc lo) (snd (cb (int (Suc lo)) (int n) fname s1))"
      using st [of "Suc lo" s1 fname] lt q1 by (simp del: of_nat_Suc)
    then have q2: "Q (Suc lo) s2" by (simp add: c del: of_nat_Suc)
    show ?thesis
    proof (cases r)
      case (Some ex)
      then show ?thesis
        using q2 lt None c
        by (auto simp: u Let_def fname_def [symmetric] s1_def [symmetric]
            simp del: upt_Suc of_nat_Suc intro!: exI [of _ "Suc lo"])
    next
      case rn: None
      have d: "d = n - Suc lo" using Suc.hyps(2) by simp
      from Suc.hyps(1) [OF d _ q2, of "acc @ [os_path_join out fname]"] lt
      show ?thesis
        using None c rn
        by (simp add: u Let_def fname_def [symmetric] s1_def [symmetric]
            del: upt_Suc of_nat_Suc)
    qed
  qed
qed

lemma save_images_no_callback:
  "\<exists>x. snd (save_images e self out pre None n is acc s) = s\<lparr>paths := x\<rparr>"
proof (induction "is" arbitrary: acc s)
  case Nil
  show ?case by (auto intro: exI [of _ "paths s"])
next
  case (Cons i rest)
  show ?case
  proof (cases "image_save e i")
    case (Some m)
    then show ?thesis by (auto simp: Let_def intro: exI [of _ "paths s"])
  next
    case None
    then show ?thesis
      using Cons [of "acc @ [os_path_join out (slide_filename self pre i)]"
          "s\<lparr>paths := insert (os_path_join out (slide_filename self pre i)) (paths s)\<rparr>"]
      by (auto simp: Let_def)
  qed
qed

lemma save_slides_state:
  "\<exists>x. snd (save_slides e self out pre is acc s) = s\<lparr>paths := x\<rparr>"
proof (induction "is" arbitrary: acc s)
  case Nil
  show ?case by (auto intro: exI [of _ "paths s"])
next
  case (Cons i rest)
  show ?case
  proof (cases "image_save e i")
    case (Some m)
    then show ?thesis by (auto simp: Let_def intro: exI [of _ "paths s"])
  next
    case None
    then show ?thesis
      using Cons [of "acc @ [os_path_join out (slide_filename self pre i)]"
          "s\<lparr>paths := insert (os_path_join out (slide_filename self pre i)) (paths s)\<rparr>"]
      by (auto simp: Let_def)
  qed
qed

lemma export_with_libreoffice_inv:
  fixes Q :: "nat \<Rightarrow> nat \<Rightarrow> 'a fs_scheme \<Rightarrow> bool"
  assumes fr: "\<And>n j s x. Q n j s \<Longrightarrow> Q n j (s\<lparr>paths := x\<rparr>)"
      and st: "\<And>n i s fname. 1 \<le> i \<Longrightarrow> i \<le> n \<Longrightarrow> Q n (i - 1) s \<Longrightarrow>
                 Q n i (snd (cb (int i) (int n) fname s))"
      and init: "\<And>n. Q n 0 s"
  shows "\<exists>n j. j \<le> n \<and> Q n j (snd (export_with_libreoffice e self p out pre (Some cb) s))"
proof (cases "\<exists>n. subprocess_run e (if which e ''soffice'' then ''soffice'' else ''libreoffice'')
                    = CompletedProcess \<and> glob_pdf e \<noteq> [] \<and> has_pdf2image self \<and>
                    convert_from_path e = Inr n")
  case True
  then obtain n where n: "subprocess_run e (if which e ''soffice'' then ''soffice'' else ''libreoffice'')
                    = CompletedProcess" "glob_pdf e \<noteq> []" "has_pdf2image self"
                    "convert_from_path e = Inr n" by blast
  have "\<exists>j\<le>n. Q n j (snd (save_images e self out pre (Some cb) n [Suc 0..<Suc n] [] s))"
    by (rule save_images_inv [where Q = "Q n"]) (auto intro: fr st init)
  then show ?thesis
    using n by (auto simp: export_with_libreoffice_def simp del: upt_Suc)
next
  case False
  then have "snd (export_with_libreoffice e self p out pre (Some cb) s) = s"
    by (auto simp: export_with_libreoffice_def simp del: upt_Suc
        split: subprocess_outcome.splits sum.splits if_splits)
  then show ?thesis using init [of 0] by auto
qed

lemma export_inv:
  fixes Q :: "nat \<Rightarrow> nat \<Rightarrow> 'a fs_scheme \<Rightarrow> bool"
  assumes fr: "\<And>n j s x. Q n j s \<Longrightarrow> Q n j (s\<lparr>paths := x\<rparr>)"
      and st: "\<And>n i s fname. 1 \<le> i \<Longrightarrow> i \<le> n \<Longrightarrow> Q n (i - 1) s \<Longrightarrow>
                 Q n i (snd (cb (int i) (int n) fname s))"
      and init: "\<And>n. Q n 0 s"
  shows "\<exists>n j. j \<le> n \<and> Q n j (snd (export e self p out m pre (Some cb) s))"
proof -
  define s1 where "s1 = makedirs out s"
  have i1: "\<And>n. Q n 0 s1" unfolding s1_def makedirs_def by (rule fr) (rule init)
  have lo: "\<exists>n j. j \<le> n \<and> Q n j (snd (export_with_libreoffice e self p out pre (Some cb) s1))"
    by (rule export_with_libreoffice_inv) (auto intro: fr st i1)
  have as: "\<exists>n j. j \<le> n \<and> Q n j (snd (export_with_aspose e self p out pre (Some cb) s1))"
  proof -
    have "\<exists>x. snd (export_with_aspose e self p out pre (Some cb) s1) = s1\<lparr>paths := x\<rparr>"
    proof (cases "import_aspose e \<and> (\<exists>n. aspose_presentation e = Inr n)")
      case True
      then show ?thesis
        using save_slides_state [of e self out pre _ "[]" s1]
        by (auto simp: export_with_aspose_def simp del: upt_Suc)
    next
      case False
      then have "snd (export_with_aspose e self p out pre (Some cb) s1) = s1\<lparr>paths := paths s1\<rparr>"
        by (auto simp: export_with_aspose_def split: sum.splits)
      then show ?thesis by blast
    qed
    then obtain x where "snd (export_with_aspose e self p out pre (Some cb) s1) = s1\<lparr>paths := x\<rparr>"
      by blast
    then show ?thesis using fr [OF i1, of 0 x] by auto
  qed
  have base: "\<exists>n j. j \<le> n \<and> Q n j s" "\<exists>n j. j \<le> n \<and> Q n j s1"
    using init [of 0] i1 [of 0] by auto
  show ?thesis
    using lo as base
    by (auto simp: export_def export_with_pdf2image_def s1_def [symmetric] Let_def
        split: option.splits sum.splits)
qed

lemma save_images_files:
  "save_images e self out pre cb n is acc s = (Inr files, s') \<Longrightarrow>
   files = acc @ map (\<lambda>i. os_path_join out (slide_filename self pre i)) is"
proof (induction "is" arbitrary: acc s)
  case Nil
  then show ?case by simp
next
  case (Cons i rest)
  define path where "path = os_path_join out (slide_filename self pre i)"
  define s1 where "s1 = s\<lparr>paths := insert path (paths s)\<rparr>"
  from Cons.prems have sv: "image_save e i = None"
    by (auto simp: Let_def split: option.splits)
  have "\<exists>s2. save_images e self out pre cb n rest (acc @ [path]) s2 = (Inr files, s')"
  proof (cases cb)
    case None
    with Cons.prems sv show ?thesis
      by (auto simp: Let_def path_def [symmetric] s1_def [symmetric])
  next
    case (Some f)
    with Cons.prems sv show ?thesis
      by (auto simp: Let_def path_def [symmetric] s1_def [symmetric]
          split: prod.splits option.splits)
  qed
  then obtain s2 where "save_images e self out pre cb n rest (acc @ [path]) s2 = (Inr files, s')"
    by blast
  from Cons.IH [OF this] show ?case by (simp add: path_def)
qed

lemma save_slides_files:
  "save_slides e self out pre is acc s = (Inr files, s') \<Longrightarrow>
   files = acc @ map (\<lambda>i. os_path_join out (slide_filename self pre i)) is"
proof (induction "is" arbitrary: acc s)
  case Nil
  then show ?case by simp
next
  case (Cons i rest)
  from Cons.prems show ?case
    by (auto simp: Let_def split: option.splits prod.splits dest!: Cons.IH)
qed

lemma export_file_names:
  assumes "export e self p out m pre cb s = (Inr files, s')"
  shows "files = map (\<lambda>i. os_path_join out (slide_filename self pre i)) [1..<Suc (length files)]"
proof -
  have "\<exists>n. files = map (\<lambda>i. os_path_join out (slide_filename self pre i)) [1..<Suc n]"
    using assms
    by (auto simp: export_def export_with_pdf2image_def export_with_libreoffice_def
        export_with_aspose_def Let_def
        simp del: upt_Suc
        split: option.splits sum.splits if_splits subprocess_outcome.splits
        dest!: save_images_files save_slides_files)
  then obtain n where n: "files = map (\<lambda>i. os_path_join out (slide_filename self pre i)) [1..<Suc n]"
    by blast
  then have "length files = n" by simp
  with n show ?thesis by simp
qed


lemma progress_ok_mono:
  "progress_ok k tid b w \<Longrightarrow> b \<le> b' \<Longrightarrow> progress_ok k tid b' w"
  by (auto simp: progress_ok_def)

lemma progress_ok_makedirs [simp]: "progress_ok k tid b (makedirs d w) = progress_ok k tid b w"
  by (simp add: makedirs_def)

lemma progress_ok_rmtree [simp]: "progress_ok k tid b (rmtree e d w) = progress_ok k tid b w"
  by (simp add: rmtree_def)

lemma progress_ok_finally [simp]:
  "progress_ok k tid b (finally_block p w) = progress_ok k tid b w"
  by (simp add: finally_block_def unlink_def)

lemma progress_ok_makedirsI:
  "progress_ok k tid b w \<Longrightarrow> progress_ok k tid b (makedirs d w)"
  by simp

lemma progress_ok_cache:
  "progress_ok k tid b w \<Longrightarrow> \<exists>t. tasks_cache w tid = Some t"
  by (simp add: progress_ok_def logged_def)

lemma hook_bound_step:
  assumes "1 \<le> i" "i \<le> n"
  shows "hook_bound (i - 1) n \<le> hook_bound i n" and "hook_bound i n \<le> 85"
    and "hook_bound i n = min (30 + hook_share (int i) (int n)) 85"
proof -
  have r: "0 \<le> hook_share (int i) (int n)"
    using assms by (intro hook_share_range) auto
  show "hook_bound (i - 1) n \<le> hook_bound i n"
  proof (cases "i - 1 = 0")
    case True
    then show ?thesis using assms r by (simp add: hook_bound_def)
  next
    case False
    have "hook_share (int (i - 1)) (int n) \<le> hook_share (int i) (int n)"
      using assms by (intro hook_share_mono) auto
    then show ?thesis using False assms by (simp add: hook_bound_def)
  qed
  show "hook_bound i n \<le> 85" using assms by (simp add: hook_bound_def)
  show "hook_bound i n = min (30 + hook_share (int i) (int n)) 85"
    using assms by (simp add: hook_bound_def)
qed

lemma callback_progress_ok:
  assumes "1 \<le> i" "i \<le> n" "progress_ok k tid (hook_bound (i - 1) n) w"
  shows "progress_ok k tid (hook_bound i n) (snd (progress_callback e tid (int i) (int n) fname w))"
proof -
  obtain t where t: "tasks_cache w tid = Some t" using progress_ok_cache [OF assms(3)] by blast
  have i: "1 \<le> int i" "int i \<le> int n" using assms by simp_all
  note hb = hook_bound_step [OF assms(1,2)]
  show ?thesis
    unfolding progress_callback_run [OF t i] snd_conv assigns_Cons assigns_Nil hb(3) [symmetric]
    by (intro progress_ok_keep progress_ok_set [OF _ hb(1)] assms(3))
qed

lemma export_progress_ok:
  assumes "progress_ok k tid 30 w"
  shows "progress_ok k tid 85
           (snd (export e self p out m pre (Some (progress_callback e' tid)) w))"
proof -
  have "\<exists>n j. j \<le> n \<and> progress_ok k tid (hook_bound j n)
          (snd (export e self p out m pre (Some (progress_callback e' tid)) w))"
  proof (rule export_inv [where Q = "\<lambda>n j. progress_ok k tid (hook_bound j n)"])
    show "\<And>n j s x. progress_ok k tid (hook_bound j n) s \<Longrightarrow>
            progress_ok k tid (hook_bound j n) (s\<lparr>paths := x\<rparr>)" by simp
    show "\<And>n i s fname. 1 \<le> i \<Longrightarrow> i \<le> n \<Longrightarrow> progress_ok k tid (hook_bound (i - 1) n) s \<Longrightarrow>
            progress_ok k tid (hook_bound i n) (snd (progress_callback e' tid (int i) (int n) fname s))"
      by (rule callback_progress_ok)
    show "\<And>n. progress_ok k tid (hook_bound 0 n) w" using assms by (simp add: hook_bound_def)
  qed
  then obtain n j where "j \<le> n"
    and ok: "progress_ok k tid (hook_bound j n)
          (snd (export e self p out m pre (Some (progress_callback e' tid)) w))" by blast
  have "hook_bound j n \<le> 85" by (simp add: hook_bound_def)
  with ok show ?thesis by (rule progress_ok_mono)
qed

lemma prepare_progress_ok:
  assumes "progress_ok k tid 0 w"
  shows "progress_ok k tid 30 (prepare e tid p w)"
proof (cases "0 < get_ppt_slide_count e p")
  case True
  show ?thesis
    unfolding prepare_def Let_def assigns_Cons assigns_Nil progress_ok_makedirs if_P [OF True]
    by (rule progress_ok_keep progress_ok_set progress_ok_makedirsI assms)+ simp_all
next
  case False
  show ?thesis
    unfolding prepare_def Let_def assigns_Cons assigns_Nil progress_ok_makedirs if_not_P [OF False]
    by (rule progress_ok_keep progress_ok_set progress_ok_makedirsI assms)+ simp_all
qed

lemma finish_progress_ok:
  assumes "progress_ok k tid 85 w"
  shows "progress_ok k tid 100 (finish e tid files w)"
proof -
  define w1 where "w1 = (case tasks_cache w tid of None \<Rightarrow> w
     | Some t \<Rightarrow> if int (length files) \<noteq> total_slides t
         then assign tid (\<lambda>t. t\<lparr>total_slides := int (length files)\<rparr>) w else w)"
  have w1: "progress_ok k tid 85 w1"
    unfolding w1_def using assms by (auto split: option.splits intro: progress_ok_keep)
  show ?thesis
    unfolding finish_def Let_def assigns_Cons assigns_Nil w1_def [symmetric]
    by (rule progress_ok_keep progress_ok_set w1)+ simp_all
qed

lemma except_progress_ok:
  assumes "progress_ok k tid b w"
  shows "progress_ok k tid b (except_block e tid ex w)"
  unfolding except_block_def Let_def assigns_Cons assigns_Nil
  by (simp add: progress_ok_keep assms)

lemma process_ppt_task_progress_ok:
  assumes "progress_ok k tid 0 w"
  shows "progress_ok k tid 100 (process_ppt_task e tid p d f w)"
proof -
  obtain t where t: "tasks_cache w tid = Some t" using progress_ok_cache [OF assms] by blast
  define exporter where "exporter = PPTExporter_init e
    (Some \<lparr>dpi = d, format = f, quality = 95, width = None, height = None\<rparr>)"
  define r where "r = export e exporter p (os_path_join (OUTPUT_BASE_DIR e) tid) ''auto'' ''slide''
                (Some (progress_callback e tid)) (prepare e tid p w)"
  have ok: "progress_ok k tid 85 (snd r)"
    unfolding r_def by (intro export_progress_ok prepare_progress_ok assms)
  show ?thesis
  proof (cases "fst r")
    case (Inl ex)
    then have "try_block e tid p d f w = (Some ex, snd r)"
      by (cases r) (simp add: try_block_def Let_def r_def exporter_def)
    then have "process_ppt_task e tid p d f w = finally_block p (except_block e tid ex (snd r))"
      by (simp add: process_ppt_task_def t)
    then show ?thesis
      using ok by (simp add: except_progress_ok progress_ok_mono)
  next
    case (Inr files)
    then have "try_block e tid p d f w = (None, finish e tid files (snd r))"
      by (cases r) (simp add: try_block_def Let_def r_def exporter_def)
    then have "process_ppt_task e tid p d f w = finally_block p (finish e tid files (snd r))"
      by (simp add: process_ppt_task_def t)
    then show ?thesis
      using ok by (simp add: finish_progress_ok)
  qed
qed


lemma sorted_hd_le:
  "sorted (map f xs) \<Longrightarrow> x \<in> set xs \<Longrightarrow> (f (hd xs) :: int) \<le> f x"
  by (induction xs) auto

lemma submit_world:
  assumes "endswith_ppt (upload_filename file)"
  shows "snd (convert_ppt_async e file d f w) =
           w\<lparr>paths := insert (NamedTemporaryFile e ''.pptx'') (paths w),
             tasks_cache := (tasks_cache w)(uuid4 e \<mapsto>
               \<lparr>task_id = uuid4 e, filename = upload_filename file, status = PENDING,
                progress = 0, total_slides = 0, current_slide = 0,
                created_at = now e, updated_at = now e,
                status_message = MSG_WAITING, images = [], error = None\<rparr>),
             background_tasks := background_tasks w @
               [\<lparr>bg_task_id = uuid4 e, bg_temp_file_path = NamedTemporaryFile e ''.pptx'',
                 bg_dpi = d, bg_format = f\<rparr>],
             history := history w @ [(uuid4 e,
               \<lparr>task_id = uuid4 e, filename = upload_filename file, status = PENDING,
                progress = 0, total_slides = 0, current_slide = 0,
                created_at = now e, updated_at = now e,
                status_message = MSG_WAITING, images = [], error = None\<rparr>)]\<rparr>"
  using assms by (simp add: convert_ppt_async_def Let_def)

lemma submit_progress_ok:
  assumes "endswith_ppt (upload_filename file)"
  shows "progress_ok (length (history w)) (uuid4 e) 0 (snd (convert_ppt_async e file d f w))"
  by (simp add: submit_world [OF assms] progress_ok_def logged_def polled_from_def)

text \<open>
  Claim C1. From the record's creation by a valid Submit through every assignment of its
  runner, on success and on failure at any stage, the logged \<open>progress\<close> values never
  decrease and stay between 0 and 100.
\<close>

theorem progress_never_decreases:
  assumes "endswith_ppt (upload_filename file)"
  shows "sorted (map progress (task_lifetime e file d f e' w)) \<and>
         (\<forall>r\<in>set (task_lifetime e file d f e' w). 0 \<le> progress r \<and> progress r \<le> 100)"
proof -
  define xs where "xs = task_lifetime e file d f e' w"
  have ok: "progress_ok (length (history w)) (uuid4 e) 100
              (process_ppt_task e' (uuid4 e) (NamedTemporaryFile e ''.pptx'') d f
                 (snd (convert_ppt_async e file d f w)))"
    by (intro process_ppt_task_progress_ok submit_progress_ok assms)
  then have s: "sorted (map progress xs)" and h: "0 \<le> progress (hd xs)"
    and l: "progress (last xs) \<le> 100"
    by (simp_all add: progress_ok_def xs_def task_lifetime_def)
  have "0 \<le> progress r \<and> progress r \<le> 100" if "r \<in> set xs" for r
    using sorted_hd_le [OF s that] sorted_le_last [OF s that] h l by linarith
  with s show ?thesis unfolding xs_def by blast
qed


theorem progress_never_decreases_witness:
  "endswith_ppt (upload_filename example_upload) \<and>
   sorted (map progress
     (task_lifetime example_env example_upload 300 ''png'' example_env initial_world)) \<and>
   list_all (\<lambda>r. 0 \<le> progress r \<and> progress r \<le> 100)
     (task_lifetime example_env example_upload 300 ''png'' example_env initial_world)"
proof -
  have h: "endswith_ppt (upload_filename example_upload)"
    by (simp add: example_upload_def endswith_ppt_def endswith_def)
  from progress_never_decreases [OF h, of example_env 300 "''png''" example_env initial_world]
  show ?thesis using h by (simp add: list_all_iff)
qed

section \<open>The record stays in the store\<close>

lemma assign_cache: "tasks_cache (assign tid f w) tid = map_option f (tasks_cache w tid)"
  by (simp add: assign_def split: option.splits)

lemma assign_dom [simp]: "dom (tasks_cache (assign tid f w)) = dom (tasks_cache w)"
  by (auto simp: assign_def split: option.splits if_splits)

lemma assigns_dom [simp]: "dom (tasks_cache (assigns tid fs w)) = dom (tasks_cache w)"
  by (induction fs arbitrary: w) simp_all

lemma assigns_paths [simp]: "paths (assigns tid fs w) = paths w"
  by (induction fs arbitrary: w) simp_all

lemma makedirs_cache [simp]: "tasks_cache (makedirs d w) = tasks_cache w"
  by (simp add: makedirs_def)

lemma rmtree_cache [simp]: "tasks_cache (rmtree e d w) = tasks_cache w"
  by (simp add: rmtree_def)

lemma finally_cache [simp]: "tasks_cache (finally_block p w) = tasks_cache w"
  by (simp add: finally_block_def unlink_def)

lemma callback_dom [simp]:
  "dom (tasks_cache (snd (progress_callback e tid c n fname w))) = dom (tasks_cache w)"
  by (simp add: progress_callback_def Let_def split: option.splits sum.splits)

lemma prepare_dom [simp]: "dom (tasks_cache (prepare e tid p w)) = dom (tasks_cache w)"
  by (simp add: prepare_def Let_def)

lemma finish_dom [simp]: "dom (tasks_cache (finish e tid files w)) = dom (tasks_cache w)"
  by (simp add: finish_def Let_def split: option.splits)

lemma except_dom [simp]: "dom (tasks_cache (except_block e tid ex w)) = dom (tasks_cache w)"
  by (simp add: except_block_def Let_def)

lemma export_dom:
  "dom (tasks_cache (snd (export e self p out m pre (Some (progress_callback e' tid)) w)))
     = dom (tasks_cache w)"
  using export_inv [where Q = "\<lambda>n j s. dom (tasks_cache s) = dom (tasks_cache w)"
      and cb = "progress_callback e' tid" and s = w and e = e and self = self and p = p
      and out = out and m = m and pre = pre]
  by auto

lemma export_no_callback:
  "\<exists>x. snd (export e self p out m pre None s) = s\<lparr>paths := x\<rparr>"
proof -
  define s1 where "s1 = makedirs out s"
  have m: "\<And>x. s1\<lparr>paths := x\<rparr> = s\<lparr>paths := x\<rparr>" by (simp add: s1_def makedirs_def)
  have a: "\<exists>x. snd (export_with_libreoffice e self p out pre None s1) = s\<lparr>paths := x\<rparr>"
  proof (cases "\<exists>n. subprocess_run e (if which e ''soffice'' then ''soffice'' else ''libreoffice'')
                    = CompletedProcess \<and> glob_pdf e \<noteq> [] \<and> has_pdf2image self \<and>
                    convert_from_path e = Inr n")
    case True
    then show ?thesis
      using save_images_no_callback [of e self out pre _ _ "[]" s1]
      by (auto simp: export_with_libreoffice_def m simp del: upt_Suc)
  next
    case False
    then have "snd (export_with_libreoffice e self p out pre None s1) = s1\<lparr>paths := paths s1\<rparr>"
      by (auto simp: export_with_libreoffice_def simp del: upt_Suc
          split: subprocess_outcome.splits sum.splits if_splits)
    then show ?thesis by (metis m)
  qed
  have b: "\<exists>x. snd (export_with_aspose e self p out pre None s1) = s\<lparr>paths := x\<rparr>"
  proof (cases "import_aspose e \<and> (\<exists>n. aspose_presentation e = Inr n)")
    case True
    then show ?thesis
      using save_slides_state [of e self out pre _ "[]" s1]
      by (auto simp: export_with_aspose_def m simp del: upt_Suc)
  next
    case False
    then have "snd (export_with_aspose e self p out pre None s1) = s1\<lparr>paths := paths s1\<rparr>"
      by (auto simp: export_with_aspose_def split: sum.splits)
    then show ?thesis by (metis m)
  qed
  have c: "\<exists>x. s = s\<lparr>paths := x\<rparr>" "\<exists>x. s1 = s\<lparr>paths := x\<rparr>"
    by (rule exI [of _ "paths s"], simp) (rule exI [of _ "paths s1"], simp add: s1_def makedirs_def)
  show ?thesis
    using a b c
    by (auto simp: export_def export_with_pdf2image_def s1_def [symmetric] Let_def
        split: option.splits sum.splits)
qed

lemma try_block_dom:
  "dom (tasks_cache (snd (try_block e tid p d f w))) = dom (tasks_cache w)"
proof -
  define r where "r = export e (PPTExporter_init e
    (Some \<lparr>dpi = d, format = f, quality = 95, width = None, height = None\<rparr>)) p
      (os_path_join (OUTPUT_BASE_DIR e) tid) ''auto'' ''slide''
                (Some (progress_callback e tid)) (prepare e tid p w)"
  have "dom (tasks_cache (snd r)) = dom (tasks_cache w)"
    unfolding r_def by (simp add: export_dom)
  then show ?thesis
    by (cases r; cases "fst r") (auto simp: try_block_def Let_def r_def [symmetric])
qed

lemma process_ppt_task_dom:
  "dom (tasks_cache (process_ppt_task e tid p d f w)) = dom (tasks_cache w)"
  using try_block_dom [of e tid p d f w]
  by (cases "try_block e tid p d f w")
     (auto simp: process_ppt_task_def split: option.splits)


lemma dom_keeps: "dom (tasks_cache w') = dom (tasks_cache w) \<Longrightarrow>
    tasks_cache w tid \<noteq> None \<Longrightarrow> tasks_cache w' tid \<noteq> None"
  by (metis domIff)

lemma step_keeps_record:
  assumes "tasks_cache w tid \<noteq> None" and "\<forall>e. ev \<noteq> Delete e tid"
  shows "tasks_cache (step ev w) tid \<noteq> None"
proof (cases ev)
  case (Submit e upl d f)
  then show ?thesis
    using assms(1) by (simp add: convert_ppt_async_def Let_def)
next
  case (RunNext e)
  show ?thesis
  proof (cases "background_tasks w")
    case Nil
    then show ?thesis using assms(1) RunNext by simp
  next
    case (Cons b rest)
    have "tasks_cache (w\<lparr>background_tasks := rest\<rparr>) tid \<noteq> None" using assms(1) by simp
    from dom_keeps [OF process_ppt_task_dom this]
    show ?thesis using RunNext Cons by simp
  qed
next
  case (Status x)
  then show ?thesis using assms(1) by simp
next
  case (Delete e x)
  with assms(2) have "x \<noteq> tid" by blast
  then show ?thesis
    using assms(1) Delete by (simp add: delete_task_def Let_def split: option.splits)
next
  case (SyncConvert e upl d f)
  have "tasks_cache (snd (convert_ppt_sync e upl d f w)) = tasks_cache w"
  proof (cases "endswith_ppt (upload_filename upl)")
    case False
    then show ?thesis by (simp add: convert_ppt_sync_def)
  next
    case True
    define s where "s = makedirs (os_path_join (OUTPUT_BASE_DIR e) (uuid4 e))
                          (w\<lparr>paths := insert (NamedTemporaryFile e ''.pptx'') (paths w)\<rparr>)"
    define r where "r = export e (PPTExporter_init e
        (Some \<lparr>dpi = d, format = f, quality = 95, width = None, height = None\<rparr>))
        (NamedTemporaryFile e ''.pptx'') (os_path_join (OUTPUT_BASE_DIR e) (uuid4 e))
        ''auto'' ''slide'' None s"
    obtain x where "snd r = s\<lparr>paths := x\<rparr>"
      unfolding r_def using export_no_callback by blast
    then have c: "tasks_cache (snd r) = tasks_cache w" by (simp add: s_def)
    show ?thesis
      using True c
      by (cases r; cases "fst r")
         (auto simp: convert_ppt_sync_def Let_def s_def [symmetric] r_def [symmetric] unlink_def)
  qed
  then show ?thesis using assms(1) SyncConvert by simp
qed

lemma run_keeps_record:
  assumes "tasks_cache w tid \<noteq> None" and "\<forall>ev\<in>set evs. \<forall>e. ev \<noteq> Delete e tid"
  shows "tasks_cache (run evs w) tid \<noteq> None"
  using assms
proof (induction evs arbitrary: w)
  case Nil
  then show ?case by (simp add: run_def)
next
  case (Cons ev evs)
  from Cons.prems have "tasks_cache (step ev w) tid \<noteq> None"
    by (intro step_keeps_record) auto
  from Cons.IH [OF this] Cons.prems(2) show ?case by (simp add: run_def)
qed

text \<open>
  Claim C6, as the program has it. A valid Submit returns the identifier with the record
  already in the store and the background task queued behind it; whatever requests and
  background runs follow, a Status query for that identifier is never answered not-found,
  as long as none of them is a Delete of that identifier.
\<close>

theorem status_finds_submitted_task:
  assumes "endswith_ppt (upload_filename file)"
    and "\<forall>ev\<in>set evs. \<forall>e'. ev \<noteq> Delete e' (uuid4 e)"
  shows "fst (convert_ppt_async e file d f w) = Inr (Submitted (uuid4 e) MSG_TASK_CREATED) \<and>
         tasks_cache (snd (convert_ppt_async e file d f w)) (uuid4 e) \<noteq> None \<and>
         bg_task_id (last (background_tasks (snd (convert_ppt_async e file d f w)))) = uuid4 e \<and>
         get_task_status (uuid4 e) (run evs (snd (convert_ppt_async e file d f w)))
           \<noteq> Inl (HTTPException 404 MSG_NO_TASK)"
proof -
  have a: "fst (convert_ppt_async e file d f w) = Inr (Submitted (uuid4 e) MSG_TASK_CREATED)"
    using assms(1) by (simp add: convert_ppt_async_def Let_def)
  have b: "tasks_cache (snd (convert_ppt_async e file d f w)) (uuid4 e) \<noteq> None"
    and c: "bg_task_id (last (background_tasks (snd (convert_ppt_async e file d f w)))) = uuid4 e"
    by (simp_all add: submit_world [OF assms(1)])
  from run_keeps_record [OF b assms(2)]
  have "get_task_status (uuid4 e) (run evs (snd (convert_ppt_async e file d f w)))
           \<noteq> Inl (HTTPException 404 MSG_NO_TASK)"
    by (auto simp: get_task_status_def split: option.splits)
  with a b c show ?thesis by blast
qed

theorem status_finds_submitted_task_witness:
  "endswith_ppt (upload_filename example_upload) \<and>
   list_all (\<lambda>ev. \<forall>e'. ev \<noteq> Delete e' (uuid4 example_env))
     [RunNext example_env, Status ''task-1''] \<and>
   get_task_status (uuid4 example_env)
       (run [RunNext example_env, Status ''task-1'']
          (snd (convert_ppt_async example_env example_upload 300 ''png'' initial_world)))
     \<noteq> Inl (HTTPException 404 MSG_NO_TASK)"
proof -
  have h: "endswith_ppt (upload_filename example_upload)"
    by (simp add: example_upload_def endswith_ppt_def endswith_def)
  have g: "\<forall>ev\<in>set [RunNext example_env, Status ''task-1'']. \<forall>e'. ev \<noteq> Delete e' (uuid4 example_env)"
    by simp
  from status_finds_submitted_task [OF h g, of 300 "''png''" initial_world]
  show ?thesis using h by simp
qed

text \<open>
  Claim C6 as stated fails once the task has been deleted: Submit, then Delete, then
  Status answers 404.
\<close>

theorem status_after_delete_not_found:
  "fst (convert_ppt_async example_env example_upload 300 ''png'' initial_world)
     = Inr (Submitted ''task-1'' MSG_TASK_CREATED) \<and>
   get_task_status ''task-1''
       (run [Delete example_env ''task-1'']
          (snd (convert_ppt_async example_env example_upload 300 ''png'' initial_world)))
     = Inl (HTTPException 404 MSG_NO_TASK)"
proof -
  have h: "endswith_ppt (upload_filename example_upload)"
    by (simp add: example_upload_def endswith_ppt_def endswith_def)
  have u: "uuid4 example_env = ''task-1''" by (simp add: example_env_def)
  show ?thesis
    using h
    by (simp add: run_def submit_world [OF h] u delete_task_def Let_def get_task_status_def
        convert_ppt_async_def rmtree_def)
qed

section \<open>Outcome of the runner\<close>

lemma try_block_converter:
  "try_block e tid p d f w =
     (case converter_call e tid p d f w of
        (Inl ex, w2) \<Rightarrow> (Some ex, w2)
      | (Inr image_files, w2) \<Rightarrow> (None, finish e tid image_files w2))"
  by (simp add: try_block_def converter_call_def Let_def)

lemma process_ppt_task_failed:
  assumes "tasks_cache w tid = Some t" "converter_call e tid p d f w = (Inl ex, w1)"
  shows "process_ppt_task e tid p d f w = finally_block p (except_block e tid ex w1)"
    and "try_block e tid p d f w = (Some ex, w1)"
  using assms by (simp_all add: process_ppt_task_def try_block_converter)

lemma process_ppt_task_succeeded:
  assumes "tasks_cache w tid = Some t" "converter_call e tid p d f w = (Inr files, w1)"
  shows "process_ppt_task e tid p d f w = finally_block p (finish e tid files w1)"
    and "try_block e tid p d f w = (None, finish e tid files w1)"
  using assms by (simp_all add: process_ppt_task_def try_block_converter)

lemma converter_call_dom:
  "dom (tasks_cache (snd (converter_call e tid p d f w))) = dom (tasks_cache w)"
  by (simp add: converter_call_def export_dom)

lemma converter_call_record:
  assumes "tasks_cache w tid = Some t"
  shows "\<exists>t1. tasks_cache (snd (converter_call e tid p d f w)) tid = Some t1"
  using converter_call_dom [of e tid p d f w] assms by (metis domD domI)

lemma finish_record:
  assumes "tasks_cache w tid = Some t"
  shows "\<exists>t'. tasks_cache (finish e tid files w) tid = Some t' \<and> status t' = COMPLETED \<and>
           progress t' = 100 \<and> total_slides t' = int (length files) \<and>
           current_slide t' = int (length files) \<and>
           images t' = make_image_urls e tid files \<and> error t' = error t"
  using assms by (simp add: finish_def Let_def assign_cache)

lemma except_record:
  assumes "tasks_cache w tid = Some t"
  shows "\<exists>t'. tasks_cache (except_block e tid ex w) tid = Some t' \<and> status t' = FAILED \<and>
           status_message t' = MSG_FAILED \<and> error t' = Some (str_exn ex) \<and>
           images t' = images t \<and> progress t' = progress t"
  using assms by (simp add: except_block_def Let_def assign_cache)


section \<open>File names and slide numbers\<close>

lemma make_image_urls_length [simp]: "length (make_image_urls e folder files) = length files"
  by (simp add: make_image_urls_def)

lemma enumerate_numbers:
  "map (\<lambda>x. int (fst x) + 1) (enumerate k files) = map int [Suc k..<Suc (k + length files)]"
proof (induction files arbitrary: k)
  case Nil
  show ?case by simp
next
  case (Cons x xs)
  have "[Suc k..<Suc (k + length (x # xs))] = Suc k # [Suc (Suc k)..<Suc (Suc k + length xs)]"
    by (simp add: upt_conv_Cons del: upt_Suc)
  then show ?case using Cons [of "Suc k"] by (simp del: upt_Suc)
qed

lemma make_image_urls_numbers:
  "map slide_number (make_image_urls e folder files) = map int [1..<Suc (length files)]"
  using enumerate_numbers [of 0 files]
  by (simp add: make_image_urls_def comp_def case_prod_beta del: upt_Suc)

lemma make_image_urls_filenames:
  "map image_filename (make_image_urls e folder files) = map os_path_basename files"
proof -
  have "map image_filename (make_image_urls e folder files)
          = map (\<lambda>x. os_path_basename (snd x)) (enumerate 0 files)"
    by (simp add: make_image_urls_def comp_def case_prod_beta)
  also have "\<dots> = map os_path_basename (map snd (enumerate 0 files))"
    by (simp only: map_map comp_def)
  also have "\<dots> = map os_path_basename files"
    by (simp only: map_snd_enumerate)
  finally show ?thesis .
qed

lemma basename_join:
  assumes "CHR ''/'' \<notin> set name"
  shows "os_path_basename (os_path_join a name) = name"
proof -
  have t: "takeWhile (\<lambda>c. c \<noteq> CHR ''/'') (rev name @ rest)
             = rev name @ takeWhile (\<lambda>c. c \<noteq> CHR ''/'') rest" for rest
    using assms by (intro takeWhile_append2) auto
  have "\<not> (name \<noteq> [] \<and> hd name = CHR ''/'')" using assms by (cases name) auto
  then have j: "os_path_join a name
                  = (if a = [] \<or> last a = CHR ''/'' then a @ name else a @ ''/'' @ name)"
    by (simp only: os_path_join_def if_False)
  show ?thesis
  proof (cases "a = [] \<or> last a = CHR ''/''")
    case True
    then have "takeWhile (\<lambda>c. c \<noteq> CHR ''/'') (rev a) = []"
      by (cases a rule: rev_cases) auto
    then show ?thesis using True by (simp add: j os_path_basename_def t)
  next
    case False
    then show ?thesis by (simp add: j os_path_basename_def t)
  qed
qed

lemma digit_char_not_slash: "d < 10 \<Longrightarrow> digit_char d \<noteq> CHR ''/''"
proof
  assume d: "d < 10" and "digit_char d = CHR ''/''"
  then have "(of_char (char_of (48 + d)) :: nat) = of_char (CHR ''/'')"
    by (simp add: digit_char_def)
  then show False using d by simp
qed

lemma str_nat_no_slash: "CHR ''/'' \<notin> set (str_nat n)"
proof (induction n rule: str_nat.induct)
  case (1 n)
  show ?case
  proof (cases "n < 10")
    case True
    then show ?thesis using digit_char_not_slash [of n] by (subst str_nat.simps) auto
  next
    case False
    then show ?thesis
      using 1 digit_char_not_slash [of "n mod 10"] by (subst str_nat.simps) auto
  qed
qed

lemma fmt_03d_no_slash: "CHR ''/'' \<notin> set (fmt_03d n)"
  using str_nat_no_slash [of n] by (auto simp: fmt_03d_def)

lemma slide_basename:
  assumes "CHR ''/'' \<notin> set pre" "CHR ''/'' \<notin> set (format (config self))"
  shows "os_path_basename (os_path_join out (slide_filename self pre i)) = slide_filename self pre i"
  using assms fmt_03d_no_slash [of i]
  by (intro basename_join) (auto simp: slide_filename_def)

lemma converter_call_file_names:
  assumes "converter_call e tid p d f w = (Inr files, w1)"
  shows "files = map (\<lambda>i. os_path_join (os_path_join (OUTPUT_BASE_DIR e) tid)
                         (''slide_'' @ fmt_03d i @ ''.'' @ f)) [1..<Suc (length files)]"
  using export_file_names [OF assms [unfolded converter_call_def]]
  by (simp add: slide_filename_def PPTExporter_init_def del: upt_Suc)

text \<open>
  Claim C5. Whatever backend produced them, the files a successful \<open>export\<close> returns are
  \<open>prefix_001.format\<close>, \<open>prefix_002.format\<close>, ... in the output directory, numbered from 1
  without a gap in list order. When a runner leaves its record completed, \<open>total_slides\<close>
  is the length of \<open>images\<close>, the slide numbers are 1, 2, ... up to that length in list
  order, and (a format without a slash given) the entry at position i names the file
  \<open>slide_\<close>(i+1 on three digits)\<open>.format\<close>.
\<close>

theorem slides_numbered_in_order:
  "(export e self p out m pre cb s = (Inr files, s') \<longrightarrow>
      files = map (\<lambda>i. os_path_join out (pre @ ''_'' @ fmt_03d i @ ''.'' @ format (config self)))
                [1..<Suc (length files)]) \<and>
   (tasks_cache w tid = Some t \<longrightarrow>
    tasks_cache (process_ppt_task e tid p d f w) tid = Some t' \<longrightarrow> status t' = COMPLETED \<longrightarrow>
      total_slides t' = int (length (images t')) \<and>
      map slide_number (images t') = map int [1..<Suc (length (images t'))] \<and>
      (CHR ''/'' \<notin> set f \<longrightarrow>
         map image_filename (images t')
           = map (\<lambda>i. ''slide_'' @ fmt_03d i @ ''.'' @ f) [1..<Suc (length (images t'))]))"
proof -
  have a: "files = map (\<lambda>i. os_path_join out (pre @ ''_'' @ fmt_03d i @ ''.'' @ format (config self)))
                [1..<Suc (length files)]"
    if "export e self p out m pre cb s = (Inr files, s')"
    using export_file_names [OF that] by (simp add: slide_filename_def del: upt_Suc)
  have b: "total_slides t' = int (length (images t')) \<and>
      map slide_number (images t') = map int [1..<Suc (length (images t'))] \<and>
      (CHR ''/'' \<notin> set f \<longrightarrow>
         map image_filename (images t')
           = map (\<lambda>i. ''slide_'' @ fmt_03d i @ ''.'' @ f) [1..<Suc (length (images t'))])"
    if t: "tasks_cache w tid = Some t"
      and t': "tasks_cache (process_ppt_task e tid p d f w) tid = Some t'"
      and c: "status t' = COMPLETED"
  proof -
    obtain r w1 where r: "converter_call e tid p d f w = (r, w1)"
      by (cases "converter_call e tid p d f w")
    obtain t1 where t1: "tasks_cache w1 tid = Some t1"
      using converter_call_record [OF t, of e p d f] by (auto simp: r)
    show ?thesis
    proof (cases r)
      case (Inl ex)
      from process_ppt_task_failed(1) [OF t r [unfolded Inl]] except_record [OF t1, of e ex]
      have "status t' = FAILED" using t' by auto
      with c show ?thesis by simp
    next
      case (Inr fs)
      from process_ppt_task_succeeded(1) [OF t r [unfolded Inr]] finish_record [OF t1, of e fs]
      have i: "images t' = make_image_urls e tid fs" and n: "total_slides t' = int (length fs)"
        using t' by auto
      note names = converter_call_file_names [OF r [unfolded Inr]]
      have "map image_filename (images t')
           = map (\<lambda>i. ''slide_'' @ fmt_03d i @ ''.'' @ f) [1..<Suc (length (images t'))]"
        if "CHR ''/'' \<notin> set f"
      proof -
        have "map os_path_basename fs
                = map (\<lambda>i. ''slide_'' @ fmt_03d i @ ''.'' @ f) [1..<Suc (length fs)]"
          by (subst names) (use that fmt_03d_no_slash in \<open>auto intro!: basename_join simp del: upt_Suc\<close>)
        then show ?thesis by (simp add: i make_image_urls_filenames del: upt_Suc)
      qed
      then show ?thesis
        by (simp add: i n make_image_urls_numbers del: upt_Suc)
    qed
  qed
  from a b show ?thesis by blast
qed


section \<open>When the conversion succeeds\<close>

lemma prepare_paths [simp]:
  "paths (prepare e tid p w) = insert (os_path_join (OUTPUT_BASE_DIR e) tid) (paths w)"
  by (simp add: prepare_def Let_def makedirs_def)

lemma save_images_callback_succeeds:
  assumes "tasks_cache s tid \<noteq> None"
    and "\<forall>i\<in>set is. 1 \<le> i \<and> i \<le> n \<and> image_save e i = None"
  shows "fst (save_images e self out pre (Some (progress_callback e' tid)) n is acc s)
           = Inr (acc @ map (\<lambda>i. os_path_join out (slide_filename self pre i)) is)"
  using assms
proof (induction "is" arbitrary: acc s)
  case Nil
  then show ?case by simp
next
  case (Cons i rest)
  define s1 where "s1 = s\<lparr>paths := insert (os_path_join out (slide_filename self pre i)) (paths s)\<rparr>"
  from Cons.prems(1) obtain t where t: "tasks_cache s1 tid = Some t" by (auto simp: s1_def)
  from Cons.prems(2) have i: "1 \<le> int i" "int i \<le> int n" and sv: "image_save e i = None"
    by auto
  note run = progress_callback_run [OF t i, of e' "slide_filename self pre i"]
  define s2 where "s2 = snd (progress_callback e' tid (int i) (int n) (slide_filename self pre i) s1)"
  have c: "progress_callback e' tid (int i) (int n) (slide_filename self pre i) s1 = (None, s2)"
    by (simp add: s2_def run)
  have "dom (tasks_cache s2) = dom (tasks_cache s1)" by (simp add: s2_def)
  with t have p2: "tasks_cache s2 tid \<noteq> None" by (metis domIff option.distinct(1))
  from Cons.IH [OF p2, of "acc @ [os_path_join out (slide_filename self pre i)]"] Cons.prems(2)
  show ?case
    by (simp add: sv Let_def s1_def [symmetric] c)
qed

lemma converter_call_succeeds:
  assumes "tasks_cache w tid = Some t" and "p \<in> paths w" and "endswith_ppt (lower p)"
    and "check_libreoffice e"
    and "subprocess_run e (if which e ''soffice'' then ''soffice'' else ''libreoffice'')
           = CompletedProcess"
    and "glob_pdf e \<noteq> []" and "import_pdf2image e" and "convert_from_path e = Inr n"
    and "\<forall>i. image_save e i = None"
  shows "fst (converter_call e tid p d f w)
           = Inr (map (\<lambda>i. os_path_join (os_path_join (OUTPUT_BASE_DIR e) tid)
                             (''slide_'' @ fmt_03d i @ ''.'' @ f)) [1..<Suc n])"
proof -
  define self where "self = PPTExporter_init e
          (Some \<lparr>dpi = d, format = f, quality = 95, width = None, height = None\<rparr>)"
  define out where "out = os_path_join (OUTPUT_BASE_DIR e) tid"
  define s1 where "s1 = makedirs out (prepare e tid p w)"
  have "dom (tasks_cache s1) = dom (tasks_cache w)" by (simp add: s1_def)
  with assms(1) have pr: "tasks_cache s1 tid \<noteq> None" by (metis domIff option.distinct(1))
  have "fst (save_images e self out ''slide'' (Some (progress_callback e tid)) n [1..<Suc n] [] s1)
          = Inr ([] @ map (\<lambda>i. os_path_join out (slide_filename self ''slide'' i)) [1..<Suc n])"
    using assms(9) by (intro save_images_callback_succeeds [OF pr]) auto
  moreover have "check_input p (prepare e tid p w) = None"
    using assms(2,3) by (simp add: check_input_def)
  moreover have "select_method self ''auto'' = Inr ''libreoffice''"
    using assms(4) by (simp add: select_method_def self_def PPTExporter_init_def)
  moreover have "has_pdf2image self" using assms(7) by (simp add: self_def PPTExporter_init_def)
  moreover have "format (config self) = f" by (simp add: self_def PPTExporter_init_def)
  ultimately show ?thesis
    using assms(5,6,8)
    by (simp add: converter_call_def self_def [symmetric] out_def [symmetric] export_def Let_def
        s1_def [symmetric] export_with_libreoffice_def slide_filename_def del: upt_Suc)
qed

lemma process_ppt_task_completes:
  assumes "tasks_cache w tid = Some t"
    and "fst (converter_call e tid p d f w) = Inr files"
  shows "\<exists>t'. tasks_cache (process_ppt_task e tid p d f w) tid = Some t' \<and>
           status t' = COMPLETED \<and> progress t' = 100 \<and>
           total_slides t' = int (length files) \<and> images t' = make_image_urls e tid files"
proof -
  obtain w1 where r: "converter_call e tid p d f w = (Inr files, w1)"
    using assms(2) by (cases "converter_call e tid p d f w") auto
  obtain t1 where t1: "tasks_cache w1 tid = Some t1"
    using converter_call_record [OF assms(1), of e p d f] by (auto simp: r)
  from finish_record [OF t1, of e files] show ?thesis
    by (auto simp: process_ppt_task_succeeded(1) [OF assms(1) r])
qed

lemma process_ppt_task_fails:
  assumes "tasks_cache w tid = Some t"
    and "fst (converter_call e tid p d f w) = Inl ex"
  shows "\<exists>t'. tasks_cache (process_ppt_task e tid p d f w) tid = Some t' \<and>
           status t' = FAILED \<and> status_message t' = MSG_FAILED \<and> error t' = Some (str_exn ex)"
    and "fst (try_block e tid p d f w) = Some ex"
proof -
  obtain w1 where r: "converter_call e tid p d f w = (Inl ex, w1)"
    using assms(2) by (cases "converter_call e tid p d f w") auto
  obtain t1 where t1: "tasks_cache w1 tid = Some t1"
    using converter_call_record [OF assms(1), of e p d f] by (auto simp: r)
  from except_record [OF t1, of e ex]
  show "\<exists>t'. tasks_cache (process_ppt_task e tid p d f w) tid = Some t' \<and>
           status t' = FAILED \<and> status_message t' = MSG_FAILED \<and> error t' = Some (str_exn ex)"
    by (auto simp: process_ppt_task_failed(1) [OF assms(1) r])
  show "fst (try_block e tid p d f w) = Some ex"
    by (simp add: process_ppt_task_failed(2) [OF assms(1) r])
qed

lemma lower_tmp: "lower ''/tmp/tmpk3.pptx'' = ''/tmp/tmpk3.pptx''"
  by code_simp

lemma example_files:
  "fst (converter_call example_env ''task-1'' ''/tmp/tmpk3.pptx'' 300 ''png'' submitted_world)
     = Inr [''/app/output/task-1/slide_001.png'', ''/app/output/task-1/slide_002.png'',
            ''/app/output/task-1/slide_003.png'']"
proof -
  have t: "tasks_cache submitted_world ''task-1'' = Some pending_task"
    by (simp add: submitted_world_def)
  have f: "fmt_03d (Suc 0) = ''001''" "fmt_03d 2 = ''002''" "fmt_03d 3 = ''003''"
    by code_simp+
  have u: "[1..<Suc 3] = [1, 2, 3]" by code_simp
  have o: "OUTPUT_BASE_DIR example_env = ''/app/output''" by (simp add: example_env_def)
  have "fst (converter_call example_env ''task-1'' ''/tmp/tmpk3.pptx'' 300 ''png'' submitted_world)
     = Inr (map (\<lambda>i. os_path_join (os_path_join (OUTPUT_BASE_DIR example_env) ''task-1'')
                             (''slide_'' @ fmt_03d i @ ''.'' @ ''png'')) [1..<Suc 3])"
    by (rule converter_call_succeeds [OF t])
       (simp_all add: submitted_world_def lower_tmp endswith_ppt_def endswith_def
          check_libreoffice_def example_env_def)
  then have "fst (converter_call example_env ''task-1'' ''/tmp/tmpk3.pptx'' 300 ''png'' submitted_world)
     = Inr (map (\<lambda>i. os_path_join (os_path_join ''/app/output'' ''task-1'')
                             (''slide_'' @ fmt_03d i @ ''.'' @ ''png'')) [1, 2, 3])"
    by (simp only: u o)
  then show ?thesis
    by (simp add: f os_path_join_def)
qed


theorem slides_numbered_in_order_witness:
  "tasks_cache submitted_world ''task-1'' = Some pending_task \<and>
   map_option status
     (tasks_cache (process_ppt_task example_env ''task-1'' ''/tmp/tmpk3.pptx'' 300 ''png''
        submitted_world) ''task-1'') = Some COMPLETED \<and>
   map_option total_slides
     (tasks_cache (process_ppt_task example_env ''task-1'' ''/tmp/tmpk3.pptx'' 300 ''png''
        submitted_world) ''task-1'') = Some 3 \<and>
   map_option (\<lambda>t. map slide_number (images t))
     (tasks_cache (process_ppt_task example_env ''task-1'' ''/tmp/tmpk3.pptx'' 300 ''png''
        submitted_world) ''task-1'') = Some [1, 2, 3] \<and>
   map_option (\<lambda>t. map image_filename (images t))
     (tasks_cache (process_ppt_task example_env ''task-1'' ''/tmp/tmpk3.pptx'' 300 ''png''
        submitted_world) ''task-1'')
     = Some [''slide_001.png'', ''slide_002.png'', ''slide_003.png'']"
proof -
  have t: "tasks_cache submitted_world ''task-1'' = Some pending_task"
    by (simp add: submitted_world_def)
  from process_ppt_task_completes [OF t example_files]
  obtain t' where t': "tasks_cache (process_ppt_task example_env ''task-1'' ''/tmp/tmpk3.pptx'' 300
        ''png'' submitted_world) ''task-1'' = Some t'"
    and c: "status t' = COMPLETED" and n: "total_slides t' = 3" by auto
  have s: "CHR ''/'' \<notin> set ''png''" by simp
  have f: "fmt_03d (Suc 0) = ''001''" "fmt_03d 2 = ''002''" "fmt_03d 3 = ''003''"
    by code_simp+
  have u: "[Suc 0..<4] = [Suc 0, 2, 3]" by code_simp
  from slides_numbered_in_order [where w = submitted_world and tid = "''task-1''"
      and t = pending_task and t' = t' and e = example_env and p = "''/tmp/tmpk3.pptx''"
      and d = 300 and f = "''png''"] t t' c s
  have l: "total_slides t' = int (length (images t'))"
    and m: "map slide_number (images t') = map int [1..<Suc (length (images t'))]"
    and k: "map image_filename (images t')
           = map (\<lambda>i. ''slide_'' @ fmt_03d i @ ''.'' @ ''png'') [1..<Suc (length (images t'))]"
    by blast+
  from l n have len: "length (images t') = 3" by simp
  show ?thesis
    using t c n m k by (simp add: t' len u f del: upt_Suc)
qed

section \<open>Images and status\<close>

lemma images_ok_paths [simp]: "images_ok k tid (w\<lparr>paths := x\<rparr>) = images_ok k tid w"
  by (simp add: images_ok_def)

lemma images_ok_assign:
  assumes "images_ok k tid w" "\<And>t. images t = [] \<Longrightarrow> images (f t) = []"
  shows "images_ok k tid (assign tid f w)"
proof -
  from assms(1) have l: "logged k tid w" by (simp add: images_ok_def)
  then have "last (polled_from k tid w) \<in> set (polled_from k tid w)"
    by (simp add: logged_def)
  with assms show ?thesis
    by (auto simp: images_ok_def polled_from_assign [OF l] logged_assign [OF l])
qed

lemma images_ok_assigns:
  assumes "images_ok k tid w" "\<forall>f\<in>set fs. \<forall>t. images t = [] \<longrightarrow> images (f t) = []"
  shows "images_ok k tid (assigns tid fs w)"
  using assms by (induction fs arbitrary: w) (simp_all add: images_ok_assign)

lemma images_ok_prepare:
  assumes "images_ok k tid w"
  shows "images_ok k tid (prepare e tid p w)"
  using assms
  by (simp add: prepare_def Let_def makedirs_def images_ok_assigns images_ok_assign)

lemma images_ok_callback:
  assumes "images_ok k tid w"
  shows "images_ok k tid (snd (progress_callback e tid c n fname w))"
  using assms
  by (auto simp: progress_callback_def Let_def split: option.splits sum.splits
      intro!: images_ok_assign)

lemma images_ok_converter_call:
  assumes "images_ok k tid w"
  shows "images_ok k tid (snd (converter_call e tid p d f w))"
  unfolding converter_call_def
  using export_inv [where Q = "\<lambda>n j. images_ok k tid" and cb = "progress_callback e tid"
      and s = "prepare e tid p w"] images_ok_prepare [OF assms] images_ok_callback
  by auto

lemma images_ok_except:
  assumes "images_ok k tid w"
  shows "images_ok k tid (except_block e tid ex w)"
  using assms
  by (simp add: except_block_def Let_def rmtree_def images_ok_assign)

lemma images_ok_finally [simp]: "images_ok k tid (finally_block p w) = images_ok k tid w"
  by (simp add: finally_block_def unlink_def)

lemma polled_from_finally [simp]:
  "polled_from k tid (finally_block p w) = polled_from k tid w"
  by (simp add: finally_block_def unlink_def)

lemma finish_images:
  assumes "images_ok k tid w"
  shows "\<forall>r\<in>set (polled_from k tid (finish e tid files w)). images r \<noteq> [] \<longrightarrow> status r = COMPLETED"
proof -
  define w1 where "w1 = (case tasks_cache w tid of None \<Rightarrow> w
     | Some t \<Rightarrow> if int (length files) \<noteq> total_slides t
         then assign tid (\<lambda>t. t\<lparr>total_slides := int (length files)\<rparr>) w else w)"
  have "images_ok k tid w1"
    unfolding w1_def using assms by (auto split: option.splits intro: images_ok_assign)
  then have l: "logged k tid w1" and e: "\<forall>r\<in>set (polled_from k tid w1). images r = []"
    by (simp_all add: images_ok_def)
  from l have "last (polled_from k tid w1) \<in> set (polled_from k tid w1)"
    by (simp add: logged_def)
  with e have "images (last (polled_from k tid w1)) = []" by blast
  then show ?thesis
    unfolding finish_def Let_def w1_def [symmetric] assigns_Cons assigns_Nil
    using e by (simp add: polled_from_assign logged_assign l)
qed


lemma submitted_world_eq:
  shows "snd (convert_ppt_async example_env example_upload 300 ''png'' initial_world) = submitted_world"
    and "uuid4 example_env = ''task-1''"
    and "NamedTemporaryFile example_env ''.pptx'' = ''/tmp/tmpk3.pptx''"
  by (simp_all add: convert_ppt_async_def example_upload_def endswith_ppt_def endswith_def
      Let_def example_env_def initial_world_def submitted_world_def pending_task_def
      NamedTemporaryFile_def)

lemma submit_images_ok:
  assumes "endswith_ppt (upload_filename file)"
  shows "images_ok (length (history w)) (uuid4 e) (snd (convert_ppt_async e file d f w))"
  by (simp add: submit_world [OF assms] images_ok_def logged_def polled_from_def)

lemma submit_record:
  assumes "endswith_ppt (upload_filename file)"
  shows "\<exists>t. tasks_cache (snd (convert_ppt_async e file d f w)) (uuid4 e) = Some t"
  by (simp add: submit_world [OF assms])

text \<open>
  Claim C3, as the program has it. At every point of a task's life a record with images
  has status completed, so in the pending, processing and failed states \<open>images\<close> is
  empty. When the converter returns its files the final record is completed and has one
  image per file: none when the converter returned none.
\<close>

theorem images_only_when_completed:
  assumes "endswith_ppt (upload_filename file)"
  shows "(\<forall>r\<in>set (task_lifetime e file d f e' w). images r \<noteq> [] \<longrightarrow> status r = COMPLETED) \<and>
         (\<forall>files. fst (converter_call e' (uuid4 e) (NamedTemporaryFile e ''.pptx'') d f
                         (snd (convert_ppt_async e file d f w))) = Inr files \<longrightarrow>
            status (last (task_lifetime e file d f e' w)) = COMPLETED \<and>
            length (images (last (task_lifetime e file d f e' w))) = length files)"
proof -
  define k where "k = length (history w)"
  define tid where "tid = uuid4 e"
  define p where "p = NamedTemporaryFile e ''.pptx''"
  define w1 where "w1 = snd (convert_ppt_async e file d f w)"
  define w2 where "w2 = process_ppt_task e' tid p d f w1"
  have life: "task_lifetime e file d f e' w = polled_from k tid w2"
    by (simp add: task_lifetime_def k_def tid_def p_def w1_def w2_def)
  obtain t where t: "tasks_cache w1 tid = Some t"
    using submit_record [OF assms, of e d f w] unfolding w1_def tid_def by blast
  have i1: "images_ok k tid w1"
    unfolding k_def tid_def w1_def by (rule submit_images_ok [OF assms])
  obtain r w' where r: "converter_call e' tid p d f w1 = (r, w')"
    by (cases "converter_call e' tid p d f w1")
  have i2: "images_ok k tid w'"
    using images_ok_converter_call [OF i1, of e' p d f] by (simp add: r)
  have a: "\<forall>x\<in>set (polled_from k tid w2). images x \<noteq> [] \<longrightarrow> status x = COMPLETED"
  proof (cases r)
    case (Inl ex)
    have "images_ok k tid w2"
      unfolding w2_def process_ppt_task_failed(1) [OF t r [unfolded Inl]]
      by (simp add: images_ok_except i2)
    then show ?thesis by (simp add: images_ok_def)
  next
    case (Inr files)
    show ?thesis
      unfolding w2_def process_ppt_task_succeeded(1) [OF t r [unfolded Inr]]
      using finish_images [OF i2] by simp
  qed
  have "progress_ok k tid 100 w2"
    unfolding w2_def k_def tid_def w1_def
    by (intro process_ppt_task_progress_ok submit_progress_ok assms)
  then have last: "tasks_cache w2 tid = Some (last (polled_from k tid w2))"
    by (simp add: progress_ok_def logged_def)
  have b: "status (last (polled_from k tid w2)) = COMPLETED \<and>
           length (images (last (polled_from k tid w2))) = length files"
    if "fst (converter_call e' tid p d f w1) = Inr files" for files
    using process_ppt_task_completes [OF t that] last by (auto simp: w2_def)
  from a b show ?thesis
    unfolding life by (simp add: tid_def p_def w1_def)
qed

theorem images_only_when_completed_witness:
  "endswith_ppt (upload_filename example_upload) \<and>
   list_all (\<lambda>r. images r = [] \<or> status r = COMPLETED)
     (task_lifetime example_env example_upload 300 ''png'' example_env initial_world) \<and>
   status (last (task_lifetime example_env example_upload 300 ''png'' example_env initial_world))
     = COMPLETED \<and>
   length (images (last (task_lifetime example_env example_upload 300 ''png'' example_env
     initial_world))) = 3"
proof -
  have h: "endswith_ppt (upload_filename example_upload)"
    by (simp add: example_upload_def endswith_ppt_def endswith_def)
  note c3 = images_only_when_completed [OF h, of example_env 300 "''png''" example_env
      initial_world]
  have ef: "fst (converter_call example_env (uuid4 example_env)
                   (NamedTemporaryFile example_env ''.pptx'') 300 ''png''
                   (snd (convert_ppt_async example_env example_upload 300 ''png'' initial_world)))
              = Inr [''/app/output/task-1/slide_001.png'', ''/app/output/task-1/slide_002.png'',
                     ''/app/output/task-1/slide_003.png'']"
    using example_files by (simp only: submitted_world_eq)
  from c3 ef have "status (last (task_lifetime example_env example_upload 300 ''png'' example_env
        initial_world)) = COMPLETED \<and>
     length (images (last (task_lifetime example_env example_upload 300 ''png'' example_env
        initial_world)))
       = length [''/app/output/task-1/slide_001.png'', ''/app/output/task-1/slide_002.png'',
                 ''/app/output/task-1/slide_003.png'']"
    by blast
  moreover from c3
  have "list_all (\<lambda>r. images r = [] \<or> status r = COMPLETED)
     (task_lifetime example_env example_upload 300 ''png'' example_env initial_world)"
    by (auto simp: list_all_iff)
  ultimately show ?thesis using h by simp
qed

text \<open>
  Claim C3 as stated fails on a document that converts to no page: the record ends
  completed with an empty \<open>images\<close> list.
\<close>

theorem completed_without_images:
  "map_option status
     (tasks_cache (process_ppt_task empty_deck_env ''task-1'' ''/tmp/tmpk3.pptx'' 300 ''png''
        submitted_world) ''task-1'') = Some COMPLETED \<and>
   map_option images
     (tasks_cache (process_ppt_task empty_deck_env ''task-1'' ''/tmp/tmpk3.pptx'' 300 ''png''
        submitted_world) ''task-1'') = Some []"
proof -
  have t: "tasks_cache submitted_world ''task-1'' = Some pending_task"
    by (simp add: submitted_world_def)
  have "fst (converter_call empty_deck_env ''task-1'' ''/tmp/tmpk3.pptx'' 300 ''png'' submitted_world)
     = Inr (map (\<lambda>i. os_path_join (os_path_join (OUTPUT_BASE_DIR empty_deck_env) ''task-1'')
                             (''slide_'' @ fmt_03d i @ ''.'' @ ''png'')) [1..<Suc 0])"
    by (rule converter_call_succeeds [OF t])
       (simp_all add: submitted_world_def lower_tmp endswith_ppt_def endswith_def
          check_libreoffice_def example_env_def empty_deck_env_def)
  then have "fst (converter_call empty_deck_env ''task-1'' ''/tmp/tmpk3.pptx'' 300 ''png''
                    submitted_world) = Inr []"
    by simp
  from process_ppt_task_completes [OF t this] show ?thesis
    by (auto simp: make_image_urls_def)
qed


section \<open>Failure of the runner\<close>

lemma described_simps [simp]:
  "described (LibraryError m)"
  "m \<noteq> [] \<Longrightarrow> described (RuntimeError m)"
  "m \<noteq> [] \<Longrightarrow> described (ValueError m)"
  "m \<noteq> [] \<Longrightarrow> described (FileNotFoundError m)"
  "m \<noteq> [] \<Longrightarrow> described (ZeroDivisionError m)"
  "m \<noteq> [] \<Longrightarrow> described (OverflowError m)"
  by (simp_all add: described_def)

lemma messages_nonempty [simp]:
  "MSG_NO_FILE \<noteq> []" "MSG_ONLY_PPT \<noteq> []" "MSG_NO_TOOL \<noteq> []" "MSG_BAD_METHOD \<noteq> []"
  "MSG_TIMEOUT \<noteq> []" "MSG_SOFFICE_FAILED \<noteq> []" "MSG_PDF_FAILED \<noteq> []"
  "MSG_NEED_PDF2IMAGE \<noteq> []" "MSG_NEED_LIBREOFFICE \<noteq> []" "MSG_NEED_ASPOSE \<noteq> []"
  by (simp_all add: MSG_NO_FILE_def MSG_ONLY_PPT_def MSG_NO_TOOL_def MSG_BAD_METHOD_def
      MSG_TIMEOUT_def MSG_SOFFICE_FAILED_def MSG_PDF_FAILED_def MSG_NEED_PDF2IMAGE_def
      MSG_NEED_LIBREOFFICE_def MSG_NEED_ASPOSE_def)

lemma callback_described:
  "fst (progress_callback e tid c n fname w) = Some ex \<Longrightarrow> described ex"
  by (auto simp: progress_callback_def py_truediv_def py_int_def Let_def
      split: option.splits sum.splits if_splits)

lemma save_images_described:
  assumes "\<And>i n fname s ex. fst (cb i n fname s) = Some ex \<Longrightarrow> described ex"
  shows "fst (save_images e self out pre (Some cb) n is acc s) = Inl ex \<Longrightarrow> described ex"
proof (induction "is" arbitrary: acc s)
  case Nil
  then show ?case by simp
next
  case (Cons i rest)
  define path where "path = os_path_join out (slide_filename self pre i)"
  define s1 where "s1 = s\<lparr>paths := insert path (paths s)\<rparr>"
  show ?case
  proof (cases "image_save e i")
    case (Some m)
    with Cons.prems show ?thesis by (auto simp: Let_def)
  next
    case None
    obtain r s2 where c: "cb (int i) (int n) (slide_filename self pre i) s1 = (r, s2)"
      by (cases "cb (int i) (int n) (slide_filename self pre i) s1")
    show ?thesis
    proof (cases r)
      case (Some ex')
      with Cons.prems None c have "ex = ex'"
        by (simp add: Let_def path_def [symmetric] s1_def [symmetric])
      moreover have "fst (cb (int i) (int n) (slide_filename self pre i) s1) = Some ex'"
        using c Some by simp
      then have "described ex'" by (rule assms)
      ultimately show ?thesis by simp
    next
      case rn: None
      with Cons.prems None c
      have "fst (save_images e self out pre (Some cb) n rest (acc @ [path]) s2) = Inl ex"
        by (simp add: Let_def path_def [symmetric] s1_def [symmetric])
      then show ?thesis by (rule Cons.IH)
    qed
  qed
qed

lemma save_slides_described:
  "fst (save_slides e self out pre is acc s) = Inl ex \<Longrightarrow> described ex"
  by (induction "is" arbitrary: acc s) (auto simp: Let_def split: option.splits)

lemma export_described:
  assumes "\<And>i n fname s ex. fst (cb i n fname s) = Some ex \<Longrightarrow> described ex"
    and "fst (export e self p out m pre (Some cb) s) = Inl ex"
  shows "described ex"
  using assms(2) save_images_described [OF assms(1)] save_slides_described
  by (auto simp: export_def check_input_def select_method_def export_with_pdf2image_def
      export_with_libreoffice_def export_with_aspose_def Let_def simp del: upt_Suc
      split: option.splits sum.splits if_splits subprocess_outcome.splits)

lemma converter_call_described:
  "fst (converter_call e tid p d f w) = Inl ex \<Longrightarrow> described ex"
  unfolding converter_call_def
  by (rule export_described [where cb = "progress_callback e tid"]) (auto dest: callback_described)

lemma finally_paths [simp]: "paths (finally_block p w) = paths w - {p}"
  by (auto simp: finally_block_def unlink_def)

lemma except_paths:
  "paths (except_block e tid ex w) =
     (if os_path_join (OUTPUT_BASE_DIR e) tid \<in> paths w \<and> rmtree_succeeds e
      then {q \<in> paths w. \<not> under (os_path_join (OUTPUT_BASE_DIR e) tid) q}
      else paths w)"
  by (simp add: except_block_def Let_def rmtree_def)

lemma try_block_failure:
  assumes "fst (try_block e tid p d f w) = Some ex"
  shows "fst (converter_call e tid p d f w) = Inl ex"
  using assms
  by (cases "converter_call e tid p d f w"; cases "fst (converter_call e tid p d f w)")
     (auto simp: try_block_converter)

text \<open>
  Claim C4, as the program has it. When the \<^verbatim>\<open>try\<close> suite of the runner raises, the final
  record has status failed and \<open>error\<close> is the text of the exception; the text is not
  empty unless the exception came out of a library call. The output directory is removed
  with deletion errors ignored: it does not exist afterwards whenever the deletion
  succeeds.
\<close>

theorem failed_task_is_recorded:
  assumes "tasks_cache w tid = Some t" and "fst (try_block e tid p d f w) = Some ex"
  shows "map_option status (tasks_cache (process_ppt_task e tid p d f w) tid) = Some FAILED \<and>
         map_option error (tasks_cache (process_ppt_task e tid p d f w) tid)
           = Some (Some (str_exn ex)) \<and>
         ((\<forall>m. ex \<noteq> LibraryError m) \<longrightarrow> str_exn ex \<noteq> []) \<and>
         (rmtree_succeeds e \<longrightarrow>
            os_path_join (OUTPUT_BASE_DIR e) tid \<notin> paths (process_ppt_task e tid p d f w))"
proof -
  note c = try_block_failure [OF assms(2)]
  obtain w1 where r: "converter_call e tid p d f w = (Inl ex, w1)"
    using c by (cases "converter_call e tid p d f w") auto
  from process_ppt_task_fails(1) [OF assms(1) c]
  have a: "map_option status (tasks_cache (process_ppt_task e tid p d f w) tid) = Some FAILED"
    and b: "map_option error (tasks_cache (process_ppt_task e tid p d f w) tid)
           = Some (Some (str_exn ex))"
    by auto
  from converter_call_described [OF c]
  have d: "(\<forall>m. ex \<noteq> LibraryError m) \<longrightarrow> str_exn ex \<noteq> []"
    by (cases ex) (auto simp: described_def)
  have "os_path_join (OUTPUT_BASE_DIR e) tid \<notin> paths (process_ppt_task e tid p d f w)"
    if "rmtree_succeeds e"
    using that
    by (simp add: process_ppt_task_failed(1) [OF assms(1) r] except_paths under_def)
  with a b d show ?thesis by blast
qed

lemma converter_call_no_tool:
  assumes "p \<in> paths w" and "endswith_ppt (lower p)"
    and "\<not> check_libreoffice e" and "\<not> import_pdf2image e" and "\<not> import_aspose e"
  shows "converter_call e tid p d f w
           = (Inl (RuntimeError MSG_NO_TOOL),
              makedirs (os_path_join (OUTPUT_BASE_DIR e) tid) (prepare e tid p w))"
  using assms
  by (simp add: converter_call_def export_def check_input_def select_method_def
      PPTExporter_init_def Let_def)

lemma converter_call_rasterizer_fails:
  assumes "p \<in> paths w" and "endswith_ppt (lower p)" and "check_libreoffice e"
    and "subprocess_run e (if which e ''soffice'' then ''soffice'' else ''libreoffice'')
           = CompletedProcess"
    and "glob_pdf e \<noteq> []" and "import_pdf2image e" and "convert_from_path e = Inl m"
  shows "converter_call e tid p d f w
           = (Inl (LibraryError m),
              makedirs (os_path_join (OUTPUT_BASE_DIR e) tid) (prepare e tid p w))"
  using assms
  by (simp add: converter_call_def export_def check_input_def select_method_def
      PPTExporter_init_def export_with_libreoffice_def Let_def)

theorem failed_task_is_recorded_witness:
  "tasks_cache submitted_world ''task-1'' = Some pending_task \<and>
   fst (try_block bare_env ''task-1'' ''/tmp/tmpk3.pptx'' 300 ''png'' submitted_world)
     = Some (RuntimeError MSG_NO_TOOL) \<and>
   map_option status
     (tasks_cache (process_ppt_task bare_env ''task-1'' ''/tmp/tmpk3.pptx'' 300 ''png''
        submitted_world) ''task-1'') = Some FAILED \<and>
   map_option error
     (tasks_cache (process_ppt_task bare_env ''task-1'' ''/tmp/tmpk3.pptx'' 300 ''png''
        submitted_world) ''task-1'') = Some (Some MSG_NO_TOOL) \<and>
   MSG_NO_TOOL \<noteq> [] \<and>
   ''/app/output/task-1'' \<notin> paths (process_ppt_task bare_env ''task-1'' ''/tmp/tmpk3.pptx'' 300
                                     ''png'' submitted_world)"
proof -
  have t: "tasks_cache submitted_world ''task-1'' = Some pending_task"
    by (simp add: submitted_world_def)
  have "converter_call bare_env ''task-1'' ''/tmp/tmpk3.pptx'' 300 ''png'' submitted_world
          = (Inl (RuntimeError MSG_NO_TOOL),
             makedirs (os_path_join (OUTPUT_BASE_DIR bare_env) ''task-1'')
               (prepare bare_env ''task-1'' ''/tmp/tmpk3.pptx'' submitted_world))"
    by (rule converter_call_no_tool)
       (simp_all add: submitted_world_def lower_tmp endswith_ppt_def endswith_def
          check_libreoffice_def bare_env_def example_env_def)
  then have f: "fst (try_block bare_env ''task-1'' ''/tmp/tmpk3.pptx'' 300 ''png'' submitted_world)
                  = Some (RuntimeError MSG_NO_TOOL)"
    by (simp add: try_block_converter)
  have o: "os_path_join (OUTPUT_BASE_DIR bare_env) ''task-1'' = ''/app/output/task-1''"
    "rmtree_succeeds bare_env"
    by (simp_all add: bare_env_def example_env_def os_path_join_def)
  from failed_task_is_recorded [OF t f] t f o show ?thesis by simp
qed

text \<open>
  Claim C4 as stated fails when the rasterizer raises an exception without text and the
  deletion of the output directory fails: the record is failed with an empty \<open>error\<close>, and
  the directory is still there.
\<close>

theorem failed_task_without_description:
  "map_option status
     (tasks_cache (process_ppt_task broken_env ''task-1'' ''/tmp/tmpk3.pptx'' 300 ''png''
        submitted_world) ''task-1'') = Some FAILED \<and>
   map_option error
     (tasks_cache (process_ppt_task broken_env ''task-1'' ''/tmp/tmpk3.pptx'' 300 ''png''
        submitted_world) ''task-1'') = Some (Some []) \<and>
   ''/app/output/task-1'' \<in> paths (process_ppt_task broken_env ''task-1'' ''/tmp/tmpk3.pptx'' 300
                                     ''png'' submitted_world)"
proof -
  have t: "tasks_cache submitted_world ''task-1'' = Some pending_task"
    by (simp add: submitted_world_def)
  have r: "converter_call broken_env ''task-1'' ''/tmp/tmpk3.pptx'' 300 ''png'' submitted_world
          = (Inl (LibraryError []),
             makedirs (os_path_join (OUTPUT_BASE_DIR broken_env) ''task-1'')
               (prepare broken_env ''task-1'' ''/tmp/tmpk3.pptx'' submitted_world))"
    by (rule converter_call_rasterizer_fails)
       (simp_all add: submitted_world_def lower_tmp endswith_ppt_def endswith_def
          check_libreoffice_def broken_env_def example_env_def)
  then have c: "fst (converter_call broken_env ''task-1'' ''/tmp/tmpk3.pptx'' 300 ''png''
                       submitted_world) = Inl (LibraryError [])"
    by simp
  have o: "os_path_join (OUTPUT_BASE_DIR broken_env) ''task-1'' = ''/app/output/task-1''"
    "\<not> rmtree_succeeds broken_env"
    by (simp_all add: broken_env_def example_env_def os_path_join_def)
  have "''/app/output/task-1'' \<in> paths (process_ppt_task broken_env ''task-1'' ''/tmp/tmpk3.pptx''
                                     300 ''png'' submitted_world)"
    by (simp add: process_ppt_task_failed(1) [OF t r] except_paths o makedirs_def)
  with process_ppt_task_fails(1) [OF t c] show ?thesis by auto
qed


end
